theory Spec2Isabelle
  imports Complex_Main "HOL-Library.Char_ord" "HOL-Library.List_Lexorder"
    "HOL-Library.Product_Lexorder"
begin

section \<open>Tables\<close>

text \<open>
  The program of \<^verbatim>\<open>src/app.py\<close> works on one pandas DataFrame. A DataFrame is modelled
  as the list of its labelled columns, in the order of \<^verbatim>\<open>df.columns\<close>; labels may repeat.
  A column has one of the three dtypes that \<^verbatim>\<open>read_csv\<close> produces for this file:
  \<^item> \<open>I64\<close>: int64, no missing cell;
  \<^item> \<open>F64\<close>: float64, \<open>None\<close> is NaN;
  \<^item> \<open>Obj\<close>: object, a cell is a text or NaN (\<open>None\<close>).

  Scope of the model. A float64 number is an exact rational: binary rounding, infinities
  and signed zeros are outside the model. An int64 number is an \<open>int\<close>; where the program
  computes on int64 the wrap-around is written out (\<open>wrap64\<close>). A text is a string of
  characters with codes below 256, which is what the Latin-1 decoding of line 35 yields.
  Boolean columns are not modelled.
\<close>

datatype column = I64 "int list" | F64 "rat option list" | Obj "string option list"

type_synonym table = "(string \<times> column) list"

datatype cell = NaN | IntV int | FloatV rat | StrV string

datatype error = DuplicateColumn string | TypeError | KeyError string

fun cells :: "column \<Rightarrow> cell list" where
  "cells (I64 xs) = map IntV xs"
| "cells (F64 xs) = map (\<lambda>x. case x of None \<Rightarrow> NaN | Some r \<Rightarrow> FloatV r) xs"
| "cells (Obj xs) = map (\<lambda>x. case x of None \<Rightarrow> NaN | Some s \<Rightarrow> StrV s) xs"

fun longueur :: "column \<Rightarrow> nat" where
  "longueur (I64 xs) = length xs"
| "longueur (F64 xs) = length xs"
| "longueur (Obj xs) = length xs"

text \<open>\<^verbatim>\<open>df.columns\<close> and the test \<^verbatim>\<open>col in df.columns\<close>.\<close>

definition columns :: "table \<Rightarrow> string list" where
  "columns df = map fst df"

text \<open>
  \<^verbatim>\<open>df[col]\<close> for a label that is in \<^verbatim>\<open>df.columns\<close>: a Series when the label occurs
  once. When the label occurs several times pandas hands back a DataFrame, and every use
  the program makes of it (\<^verbatim>\<open>.dtype\<close>, \<^verbatim>\<open>.unique()\<close>, assigning the result to one
  column, grouping) raises; the model raises \<open>DuplicateColumn\<close> there. A label that is
  absent raises \<open>KeyError\<close>.
\<close>

definition getitem :: "table \<Rightarrow> string \<Rightarrow> error + column" where
  "getitem df col =
     (case filter (\<lambda>lc. fst lc = col) df of
        [] \<Rightarrow> Inl (KeyError col)
      | [lc] \<Rightarrow> Inr (snd lc)
      | _ \<Rightarrow> Inl (DuplicateColumn col))"

text \<open>
  \<^verbatim>\<open>df[col] = series\<close>: replaces the column under an existing label (every occurrence
  of it), or appends a new last column.
\<close>

definition setitem :: "table \<Rightarrow> string \<Rightarrow> column \<Rightarrow> table" where
  "setitem df col s =
     (if col \<in> set (columns df)
      then map (\<lambda>lc. if fst lc = col then (col, s) else lc) df
      else df @ [(col, s)])"

text \<open>
  Keeping the rows selected by a boolean mask: \<^verbatim>\<open>df[mask]\<close>, and what \<^verbatim>\<open>dropna\<close>
  does with the mask of the present cells.
\<close>

fun select :: "bool list \<Rightarrow> 'a list \<Rightarrow> 'a list" where
  "select (b # bs) (x # xs) = (if b then x # select bs xs else select bs xs)"
| "select _ _ = []"

fun select_col :: "bool list \<Rightarrow> column \<Rightarrow> column" where
  "select_col m (I64 xs) = I64 (select m xs)"
| "select_col m (F64 xs) = F64 (select m xs)"
| "select_col m (Obj xs) = Obj (select m xs)"

definition select_rows :: "bool list \<Rightarrow> table \<Rightarrow> table" where
  "select_rows m df = map (\<lambda>lc. (fst lc, select_col m (snd lc))) df"

text \<open>
  The rows of a table, each as the list of its labelled cells. A well-formed table has
  columns of one length; \<open>rows_of\<close> is only used to state properties.
\<close>

type_synonym row = "(string \<times> cell) list"

fun rows_of :: "table \<Rightarrow> row list" where
  "rows_of [] = []"
| "rows_of [lc] = map (\<lambda>x. [(fst lc, x)]) (cells (snd lc))"
| "rows_of (lc # df) = map (\<lambda>(x, r). (fst lc, x) # r) (zip (cells (snd lc)) (rows_of df))"

definition wf_table :: "table \<Rightarrow> bool" where
  "wf_table df = list_all (\<lambda>lc. longueur (snd lc) = longueur (snd (hd df))) df"

text \<open>The cell of a row under a label: the first one, as \<open>map_of\<close> reads it.\<close>

definition cell_of :: "row \<Rightarrow> string \<Rightarrow> cell option" where
  "cell_of r col = map_of r col"

section \<open>Library functions\<close>

text \<open>
  Python's \<^verbatim>\<open>str.strip\<close> and \<^verbatim>\<open>str.lower\<close> on characters with codes below 256 (the
  white space of \<^verbatim>\<open>str.isspace\<close>; the capital letters \<^verbatim>\<open>A\<close> to \<^verbatim>\<open>Z\<close> and those of
  codes 0xC0 to 0xDE, the multiplication sign 0xD7 apart), \<^verbatim>\<open>str.replace\<close> of one
  character by another, and \<^verbatim>\<open>str\<close> of an integer.
\<close>

definition is_space :: "char \<Rightarrow> bool" where
  "is_space c =
     (c \<in> set [CHR 0x09, CHR 0x0A, CHR 0x0B, CHR 0x0C, CHR 0x0D, CHR 0x1C, CHR 0x1D, CHR 0x1E,
               CHR 0x1F, CHR '' '', CHR 0x85, CHR 0xA0])"

definition strip :: "string \<Rightarrow> string" where
  "strip s = rev (dropWhile is_space (rev (dropWhile is_space s)))"

definition lower_char :: "char \<Rightarrow> char" where
  "lower_char c =
     (if (CHR ''A'' \<le> c \<and> c \<le> CHR ''Z'') \<or>
         (CHR 0xC0 \<le> c \<and> c \<le> CHR 0xDE \<and> c \<noteq> CHR 0xD7)
      then char_of (of_char c + (32::nat)) else c)"

definition lower :: "string \<Rightarrow> string" where
  "lower s = map lower_char s"

definition replace_char :: "char \<Rightarrow> char \<Rightarrow> string \<Rightarrow> string" where
  "replace_char a b s = map (\<lambda>c. if c = a then b else c) s"

function str_pos :: "int \<Rightarrow> string" where
  "str_pos n =
     (if n < 10 then [char_of (48 + n)]
      else str_pos (n div 10) @ [char_of (48 + n mod 10)])"
  by pat_completeness auto
termination
  by (relation "measure nat") auto

declare str_pos.simps [simp del]

definition str_int :: "int \<Rightarrow> string" where
  "str_int i = (if i < 0 then CHR ''-'' # str_pos (- i) else str_pos i)"

text \<open>
  Two functions of the libraries are parameters of the model, so that every theorem
  holds whatever they compute:
  \<^item> \<open>parse\<close>: the reading of one text by \<^verbatim>\<open>pd.to_numeric(..., errors='coerce')\<close>;
    \<open>None\<close> when the text is not a number (the cell becomes NaN);
  \<^item> \<open>frepr\<close>: Python's \<^verbatim>\<open>str\<close> of a float.

  \<open>lire_decimal\<close> and \<open>repr_entier\<close> are instances used to run the model on examples:
  the reading of a plain decimal literal (sign, digits, optional fraction), and the text
  of an integer-valued float (\<^verbatim>\<open>2023.0\<close>).
\<close>

definition chiffre :: "char \<Rightarrow> nat option" where
  "chiffre c =
     (if CHR ''0'' \<le> c \<and> c \<le> CHR ''9'' then Some (of_char c - 48) else None)"

fun lire_naturel :: "nat \<Rightarrow> string \<Rightarrow> nat option" where
  "lire_naturel acc [] = Some acc"
| "lire_naturel acc (c # cs) =
     (case chiffre c of None \<Rightarrow> None | Some d \<Rightarrow> lire_naturel (10 * acc + d) cs)"

definition lire_positif :: "string \<Rightarrow> rat option" where
  "lire_positif s =
     (let ip = takeWhile (\<lambda>c. c \<noteq> CHR ''.'') s;
          fp = drop 1 (dropWhile (\<lambda>c. c \<noteq> CHR ''.'') s)
      in if ip = [] then None
         else (case (lire_naturel 0 ip, lire_naturel 0 fp) of
                 (Some a, Some b) \<Rightarrow> Some (of_nat a + of_nat b / 10 ^ length fp)
               | _ \<Rightarrow> None))"

definition lire_decimal :: "string \<Rightarrow> rat option" where
  "lire_decimal s =
     (case s of
        CHR ''-'' # r \<Rightarrow> map_option uminus (lire_positif r)
      | _ \<Rightarrow> lire_positif s)"

definition repr_entier :: "rat \<Rightarrow> string" where
  "repr_entier r = str_int \<lfloor>r\<rfloor> @ ''.0''"

section \<open>Normalisation: \<^verbatim>\<open>nettoyer_donnees\<close>\<close>

text \<open>Line 53: \<^verbatim>\<open>df.columns = df.columns.str.strip().str.lower()\<close>.\<close>

definition standardiser_colonnes :: "table \<Rightarrow> table" where
  "standardiser_colonnes df = map (\<lambda>lc. (lower (strip (fst lc)), snd lc)) df"

text \<open>Lines 56-67: the renaming table, applied to the labels it knows.\<close>

definition rename_map :: "(string \<times> string) list" where
  "rename_map =
     [(''resultat_indicateurs_en'', ''valeur_reelle''),
      (''objectif_reference_contrat'', ''valeur_objectif''),
      (''ligne'', ''ligne''),
      (''mode'', ''mode''),
      (''thematique'', ''thematique''),
      (''indicateur'', ''indicateur''),
      (''annee'', ''annee''),
      (''trimestre'', ''trimestre'')]"

definition rename :: "table \<Rightarrow> table" where
  "rename df =
     map (\<lambda>lc. (case map_of rename_map (fst lc) of None \<Rightarrow> fst lc | Some v \<Rightarrow> v, snd lc)) df"

text \<open>
  Lines 71-76. \<^verbatim>\<open>astype(str)\<close> writes NaN as the text \<^verbatim>\<open>nan\<close>; on an object column the
  commas are replaced by periods and every text is read by \<open>parse\<close>. On a numeric column
  \<^verbatim>\<open>to_numeric\<close> changes nothing. The result of reading an object column is kept as
  float64 (pandas makes it int64 when every text is an integer literal; the program
  only drops, averages and sorts these columns, which does not tell the two apart).
\<close>

definition astype_str :: "(rat \<Rightarrow> string) \<Rightarrow> column \<Rightarrow> string list" where
  "astype_str frepr c =
     (case c of
        I64 xs \<Rightarrow> map str_int xs
      | F64 xs \<Rightarrow> map (\<lambda>x. case x of None \<Rightarrow> ''nan'' | Some r \<Rightarrow> frepr r) xs
      | Obj xs \<Rightarrow> map (\<lambda>x. case x of None \<Rightarrow> ''nan'' | Some s \<Rightarrow> s) xs)"

definition to_numeric :: "(string \<Rightarrow> rat option) \<Rightarrow> string list \<Rightarrow> column" where
  "to_numeric parse ss = F64 (map parse ss)"

definition convertir_colonne ::
  "(string \<Rightarrow> rat option) \<Rightarrow> (rat \<Rightarrow> string) \<Rightarrow> column \<Rightarrow> column" where
  "convertir_colonne parse frepr c =
     (case c of
        Obj xs \<Rightarrow>
          to_numeric parse (map (replace_char CHR '','' CHR ''.'') (astype_str frepr (Obj xs)))
      | _ \<Rightarrow> c)"

definition cols_numeriques :: "string list" where
  "cols_numeriques = [''valeur_reelle'', ''valeur_objectif'']"

text \<open>
  A statement of the program either goes through, leaving the DataFrame in a new state,
  or raises, leaving it in the state it had reached: the outcome of a run is the state
  of the DataFrame and the exception, if any.
\<close>

type_synonym outcome = "table \<times> error option"

fun convertir :: "(string \<Rightarrow> rat option) \<Rightarrow> (rat \<Rightarrow> string) \<Rightarrow> string list \<Rightarrow> table \<Rightarrow> outcome" where
  "convertir parse frepr [] df = (df, None)"
| "convertir parse frepr (col # cols) df =
     (if col \<in> set (columns df)
      then (case getitem df col of
              Inl e \<Rightarrow> (df, Some e)
            | Inr c \<Rightarrow> convertir parse frepr cols (setitem df col (convertir_colonne parse frepr c)))
      else convertir parse frepr cols df)"

declare convertir.simps [simp del]

text \<open>
  Lines 80-87. The label of the period is the text of the year, \<^verbatim>\<open>" - "\<close> and the text
  of the quarter. The quarter index is looked up in \<open>mapping_trimestre\<close>; a cell that is
  no key of it (a missing cell, another text, a number) maps to NaN, which
  \<^verbatim>\<open>fillna(0)\<close> turns into 0. The mapped column is int64 when every cell was a key and
  float64 otherwise.

  \<^verbatim>\<open>df['annee'] * 10 + trim_num\<close> is computed by dtype: on int64 the product and the sum
  wrap around; int64 plus float64 is float64; on a float64 year NaN stays NaN; on an
  object column a text times 10 is the text repeated, and adding a number to it raises
  \<open>TypeError\<close>, while NaN stays NaN.
\<close>

definition wrap64 :: "int \<Rightarrow> int" where
  "wrap64 x = (x + 2 ^ 63) mod 2 ^ 64 - 2 ^ 63"

definition mapping_trimestre :: "(string \<times> int) list" where
  "mapping_trimestre = [(''T1'', 1), (''T2'', 2), (''T3'', 3), (''T4'', 4)]"

definition map_trimestre :: "column \<Rightarrow> int option list" where
  "map_trimestre c =
     (case c of
        Obj xs \<Rightarrow> map (\<lambda>x. case x of None \<Rightarrow> None | Some s \<Rightarrow> map_of mapping_trimestre s) xs
      | I64 xs \<Rightarrow> map (\<lambda>_. None) xs
      | F64 xs \<Rightarrow> map (\<lambda>_. None) xs)"

definition fillna0 :: "int option list \<Rightarrow> int list" where
  "fillna0 qs = map (\<lambda>q. case q of None \<Rightarrow> 0 | Some v \<Rightarrow> v) qs"

definition calc_sort_key :: "column \<Rightarrow> int option list \<Rightarrow> error + column" where
  "calc_sort_key annee mapped =
     (let trim_num = fillna0 mapped;
          entier = list_all (\<lambda>q. q \<noteq> None) mapped
      in case annee of
           I64 ys \<Rightarrow>
             Inr (if entier
                  then I64 (map (\<lambda>(y, q). wrap64 (wrap64 (y * 10) + q)) (zip ys trim_num))
                  else F64 (map (\<lambda>(y, q). Some (of_int (wrap64 (y * 10)) + of_int q))
                              (zip ys trim_num)))
         | F64 ys \<Rightarrow>
             Inr (F64 (map (\<lambda>(y, q). map_option (\<lambda>v. v * 10 + of_int q) y) (zip ys trim_num)))
         | Obj ys \<Rightarrow>
             (if list_ex (\<lambda>y. y \<noteq> None) ys then Inl TypeError
              else Inr (Obj (map (\<lambda>(y, q). None) (zip ys trim_num)))))"

definition calc_periode_label :: "(rat \<Rightarrow> string) \<Rightarrow> column \<Rightarrow> column \<Rightarrow> column" where
  "calc_periode_label frepr annee trimestre =
     Obj (map (\<lambda>(a, t). Some (a @ '' - '' @ t))
            (zip (astype_str frepr annee) (astype_str frepr trimestre)))"

definition deriver :: "(rat \<Rightarrow> string) \<Rightarrow> table \<Rightarrow> outcome" where
  "deriver frepr df =
     (if ''annee'' \<in> set (columns df) \<and> ''trimestre'' \<in> set (columns df)
      then (case getitem df ''annee'' of
              Inl e \<Rightarrow> (df, Some e)
            | Inr annee \<Rightarrow>
                (case getitem df ''trimestre'' of
                   Inl e \<Rightarrow> (df, Some e)
                 | Inr trimestre \<Rightarrow>
                     (let df1 = setitem df ''periode_label''
                                  (calc_periode_label frepr annee trimestre)
                      in case calc_sort_key annee (map_trimestre trimestre) of
                           Inl e \<Rightarrow> (df1, Some e)
                         | Inr k \<Rightarrow> (setitem df1 ''sort_key'' k, None))))
      else (df, None))"

text \<open>
  Lines 90-91. \<^verbatim>\<open>dropna(subset=[col])\<close> keeps the rows that have a value in every
  column labelled \<open>col\<close>; the label must exist.
\<close>

fun notna :: "column \<Rightarrow> bool list" where
  "notna (I64 xs) = map (\<lambda>_. True) xs"
| "notna (F64 xs) = map (\<lambda>x. x \<noteq> None) xs"
| "notna (Obj xs) = map (\<lambda>x. x \<noteq> None) xs"

definition dropna :: "string \<Rightarrow> table \<Rightarrow> error + table" where
  "dropna col df =
     (case map (\<lambda>lc. notna (snd lc)) (filter (\<lambda>lc. fst lc = col) df) of
        [] \<Rightarrow> Inl (KeyError col)
      | m # ms \<Rightarrow> Inr (select_rows (foldl (\<lambda>a b. map (\<lambda>(x, y). x \<and> y) (zip a b)) m ms) df))"

definition supprimer_vides :: "table \<Rightarrow> outcome" where
  "supprimer_vides df =
     (if ''valeur_reelle'' \<in> set (columns df)
      then (case dropna ''valeur_reelle'' df of
              Inl e \<Rightarrow> (df, Some e)
            | Inr df' \<Rightarrow> (df', None))
      else (df, None))"

text \<open>
  The body of \<^verbatim>\<open>nettoyer_donnees\<close>: what the five steps do to the DataFrame that
  \<^verbatim>\<open>df\<close> refers to. A step runs on the state the previous one left;
  \<open>avant_suppression\<close> is lines 53-87, the state that line 90 finds.
\<close>

definition puis :: "outcome \<Rightarrow> (table \<Rightarrow> outcome) \<Rightarrow> outcome" where
  "puis r f = (case r of (df, None) \<Rightarrow> f df | (df, Some e) \<Rightarrow> (df, Some e))"

definition avant_suppression ::
  "(string \<Rightarrow> rat option) \<Rightarrow> (rat \<Rightarrow> string) \<Rightarrow> table \<Rightarrow> outcome" where
  "avant_suppression parse frepr df =
     puis (convertir parse frepr cols_numeriques (rename (standardiser_colonnes df)))
       (deriver frepr)"

definition nettoyer_corps ::
  "(string \<Rightarrow> rat option) \<Rightarrow> (rat \<Rightarrow> string) \<Rightarrow> table \<Rightarrow> outcome" where
  "nettoyer_corps parse frepr df = puis (avant_suppression parse frepr df) supprimer_vides"

text \<open>
  The function itself. Its argument is a reference to a DataFrame in the store; every
  step assigns to that object or is called with \<^verbatim>\<open>inplace=True\<close>, and line 93 returns
  the reference it was given.
\<close>

type_synonym ref = nat

type_synonym store = "ref \<Rightarrow> table"

definition nettoyer_donnees ::
  "(string \<Rightarrow> rat option) \<Rightarrow> (rat \<Rightarrow> string) \<Rightarrow> ref \<Rightarrow> store \<Rightarrow> store \<times> (error + ref)" where
  "nettoyer_donnees parse frepr df st =
     (case nettoyer_corps parse frepr (st df) of
        (t, None) \<Rightarrow> (st(df := t), Inr df)
      | (t, Some e) \<Rightarrow> (st(df := t), Inl e))"

section \<open>Filters: lines 122-142 of \<^verbatim>\<open>main\<close>\<close>

text \<open>
  What the user picks in the sidebar is an input of the model: the years of the
  multiselect, the mode and the thematique of the two select boxes.

  The options of the year filter are \<^verbatim>\<open>sorted(df['annee'].unique())\<close>: sorting raises
  \<open>TypeError\<close> when the column holds both texts and NaN. \<^verbatim>\<open>isin\<close> compares numbers by
  value; a missing cell is a member of no selection, also of one that holds NaN (the
  items of the multiselect are not the objects of the column, and NaN equals no other
  object). \<^verbatim>\<open>df[col] == text\<close> is false on a missing cell and on a number.
\<close>

record criteres =
  annees_sel :: "cell list"
  mode_sel :: string
  theme_sel :: string

fun egal :: "cell \<Rightarrow> cell \<Rightarrow> bool" where
  "egal NaN b = False"
| "egal a NaN = False"
| "egal (IntV i) (FloatV r) = (of_int i = r)"
| "egal (FloatV r) (IntV i) = (r = of_int i)"
| "egal a b = (a = b)"

definition isin :: "column \<Rightarrow> cell list \<Rightarrow> bool list" where
  "isin c sel = map (\<lambda>x. list_ex (egal x) sel) (cells c)"

definition triable :: "column \<Rightarrow> bool" where
  "triable c =
     (case c of
        Obj xs \<Rightarrow> \<not> (list_ex (\<lambda>x. x \<noteq> None) xs \<and> list_ex (\<lambda>x. x = None) xs)
      | _ \<Rightarrow> True)"

definition filtre_annee :: "cell list \<Rightarrow> table \<Rightarrow> error + table" where
  "filtre_annee sel df =
     (if ''annee'' \<in> set (columns df)
      then (case getitem df ''annee'' of
              Inl e \<Rightarrow> Inl e
            | Inr c \<Rightarrow>
                (if \<not> triable c then Inl TypeError
                 else if sel \<noteq> [] then Inr (select_rows (isin c sel) df)
                 else Inr df))
      else Inr df)"

definition eq_text :: "column \<Rightarrow> string \<Rightarrow> bool list" where
  "eq_text c v = map (\<lambda>x. x = StrV v) (cells c)"

definition filtre_texte :: "string \<Rightarrow> string \<Rightarrow> string \<Rightarrow> table \<Rightarrow> error + table" where
  "filtre_texte col tous v df =
     (if col \<in> set (columns df)
      then (case getitem df col of
              Inl e \<Rightarrow> Inl e
            | Inr c \<Rightarrow> (if v \<noteq> tous then Inr (select_rows (eq_text c v) df) else Inr df))
      else Inr df)"

definition filtre_mode :: "string \<Rightarrow> table \<Rightarrow> error + table" where
  "filtre_mode v df = filtre_texte ''mode'' ''Tous'' v df"

definition filtre_thematique :: "string \<Rightarrow> table \<Rightarrow> error + table" where
  "filtre_thematique v df = filtre_texte ''thematique'' ''Toutes'' v df"

definition filtrer :: "criteres \<Rightarrow> table \<Rightarrow> error + table" where
  "filtrer cr df =
     (case filtre_annee (annees_sel cr) df of
        Inl e \<Rightarrow> Inl e
      | Inr df1 \<Rightarrow>
          (case filtre_mode (mode_sel cr) df1 of
             Inl e \<Rightarrow> Inl e
           | Inr df2 \<Rightarrow> filtre_thematique (theme_sel cr) df2))"

section \<open>Views: lines 168-246 of \<^verbatim>\<open>main\<close>\<close>

text \<open>
  \<^verbatim>\<open>groupby\<close> forms one group for each distinct key, in the order of the keys, and
  leaves out the rows whose key is missing. \<^verbatim>\<open>mean\<close> is the mean of the values present
  in the group, NaN when there is none; the mean of an object column raises.
  \<^verbatim>\<open>sort_values\<close> sorts ascending with NaN last; pandas does not fix the order of rows
  with equal values, the model keeps them in the order they had. The styling of the
  charts (titles, colours, axis range) is not modelled: a chart is the data it draws.
\<close>

definition mean :: "rat option list \<Rightarrow> rat option" where
  "mean vs =
     (let xs = map the (filter (\<lambda>v. v \<noteq> None) vs)
      in if xs = [] then None else Some (sum_list xs / of_nat (length xs)))"

fun valeurs :: "column \<Rightarrow> error + rat option list" where
  "valeurs (I64 xs) = Inr (map (\<lambda>i. Some (of_int i)) xs)"
| "valeurs (F64 xs) = Inr xs"
| "valeurs (Obj xs) = Inl TypeError"

fun ordre_cell :: "cell \<Rightarrow> nat \<times> rat \<times> string" where
  "ordre_cell NaN = (2, 0, [])"
| "ordre_cell (IntV i) = (0, of_int i, [])"
| "ordre_cell (FloatV r) = (0, r, [])"
| "ordre_cell (StrV s) = (1, 0, s)"

definition groupes :: "cell list \<Rightarrow> cell list" where
  "groupes ks = sort_key ordre_cell (remdups (filter (\<lambda>k. k \<noteq> NaN) ks))"

definition membres :: "'k list \<Rightarrow> 'v list \<Rightarrow> 'k \<Rightarrow> 'v list" where
  "membres ks vs k = map snd (filter (\<lambda>kv. fst kv = k) (zip ks vs))"

definition groupby_mean :: "cell list \<Rightarrow> rat option list \<Rightarrow> (cell \<times> rat option) list" where
  "groupby_mean ks vs = map (\<lambda>k. (k, mean (membres ks vs k))) (groupes ks)"

definition nan_dernier :: "rat option \<Rightarrow> bool \<times> rat" where
  "nan_dernier m = (case m of None \<Rightarrow> (True, 0) | Some v \<Rightarrow> (False, v))"

definition sort_values :: "(cell \<times> rat option) list \<Rightarrow> (cell \<times> rat option) list" where
  "sort_values rows = sort_key (\<lambda>km. nan_dernier (snd km)) rows"

text \<open>\<^verbatim>\<open>df.groupby(col)['valeur_reelle'].mean().reset_index()\<close>.\<close>

definition moyenne_par :: "string \<Rightarrow> table \<Rightarrow> error + (cell \<times> rat option) list" where
  "moyenne_par col df =
     (case getitem df col of
        Inl e \<Rightarrow> Inl e
      | Inr kc \<Rightarrow>
          (case getitem df ''valeur_reelle'' of
             Inl e \<Rightarrow> Inl e
           | Inr vc \<Rightarrow>
               (case valeurs vc of
                  Inl e \<Rightarrow> Inl e
                | Inr vs \<Rightarrow> Inr (groupby_mean (cells kc) vs))))"

text \<open>Lines 211-213: the fifteen lines with the lowest mean.\<close>

definition top_flop :: "table \<Rightarrow> error + (cell \<times> rat option) list" where
  "top_flop df =
     (case moyenne_par ''ligne'' df of
        Inl e \<Rightarrow> Inl e
      | Inr df_bar \<Rightarrow> Inr (take 15 (sort_values df_bar)))"

text \<open>Line 233: the mean of each thematique.\<close>

definition par_thematique :: "table \<Rightarrow> error + (cell \<times> rat option) list" where
  "par_thematique df =
     (case moyenne_par ''thematique'' df of
        Inl e \<Rightarrow> Inl e
      | Inr df_theme \<Rightarrow> Inr (sort_values df_theme))"

text \<open>
  Lines 175-182: the means of each period. \<^verbatim>\<open>cols_to_agg\<close> selects every column under
  its labels; selecting \<^verbatim>\<open>valeur_reelle\<close> raises \<open>KeyError\<close> when no column has that
  label. The reshaping for the plotting library (lines 185-190) is not modelled.
\<close>

definition ordre_periode :: "cell \<times> cell \<Rightarrow> (nat \<times> rat \<times> string) \<times> (nat \<times> rat \<times> string)" where
  "ordre_periode k = (ordre_cell (fst k), ordre_cell (snd k))"

definition valeurs_de :: "table \<Rightarrow> error + (string \<times> rat option list) list" where
  "valeurs_de sel =
     (if list_ex (\<lambda>lc. case valeurs (snd lc) of Inl e \<Rightarrow> True | Inr vs \<Rightarrow> False) sel
      then Inl TypeError
      else Inr (map (\<lambda>lc. (fst lc, case valeurs (snd lc) of Inl e \<Rightarrow> [] | Inr vs \<Rightarrow> vs)) sel))"

definition evolution ::
  "table \<Rightarrow> error + ((cell \<times> cell) \<times> (string \<times> rat option) list) list" where
  "evolution df =
     (case getitem df ''sort_key'' of
        Inl e \<Rightarrow> Inl e
      | Inr sk \<Rightarrow>
          (case getitem df ''periode_label'' of
             Inl e \<Rightarrow> Inl e
           | Inr pl \<Rightarrow>
               (if ''valeur_reelle'' \<notin> set (columns df) then Inl (KeyError ''valeur_reelle'')
                else
                  (let cols_to_agg =
                         [''valeur_reelle''] @
                         (if ''valeur_objectif'' \<in> set (columns df) then [''valeur_objectif''] else []);
                       sel = concat (map (\<lambda>l. filter (\<lambda>lc. fst lc = l) df) cols_to_agg);
                       ks = zip (cells sk) (cells pl);
                       gs = sort_key ordre_periode
                              (remdups (filter (\<lambda>k. fst k \<noteq> NaN \<and> snd k \<noteq> NaN) ks))
                   in case valeurs_de sel of
                        Inl e \<Rightarrow> Inl e
                      | Inr vss \<Rightarrow>
                          Inr (sort_key (\<lambda>r. ordre_cell (fst (fst r)))
                                 (map (\<lambda>k. (k, map (\<lambda>lv. (fst lv, mean (membres ks (snd lv) k))) vss))
                                    gs))))))"

text \<open>
  Lines 172-246: what the page shows, in order, and the exception that ends the run, if
  any. The first two views have an \<^verbatim>\<open>else\<close> branch that calls \<^verbatim>\<open>st.info\<close>; the third
  (line 231) has none, and its subheader is inside the \<^verbatim>\<open>if\<close>.
\<close>

datatype titre = Evolution_dans_le_temps | Lignes_a_surveiller | Performance_par_thematique

datatype notice = Donnees_temporelles_insuffisantes | Information_sur_les_lignes_manquante

datatype element =
    Subheader titre
  | Info notice
  | LineChart "((cell \<times> cell) \<times> (string \<times> rat option) list) list"
  | BarLignes "(cell \<times> rat option) list"
  | BarThematiques "(cell \<times> rat option) list"

definition graphique_temps :: "table \<Rightarrow> error + element list" where
  "graphique_temps df =
     (if ''periode_label'' \<in> set (columns df) \<and> ''sort_key'' \<in> set (columns df)
      then (case evolution df of Inl e \<Rightarrow> Inl e | Inr d \<Rightarrow> Inr [LineChart d])
      else Inr [Info Donnees_temporelles_insuffisantes])"

definition graphique_lignes :: "table \<Rightarrow> error + element list" where
  "graphique_lignes df =
     (if ''ligne'' \<in> set (columns df) \<and> ''valeur_reelle'' \<in> set (columns df)
      then (case top_flop df of Inl e \<Rightarrow> Inl e | Inr d \<Rightarrow> Inr [BarLignes d])
      else Inr [Info Information_sur_les_lignes_manquante])"

definition graphique_thematiques :: "table \<Rightarrow> element list \<times> error option" where
  "graphique_thematiques df =
     (if ''thematique'' \<in> set (columns df) \<and> ''valeur_reelle'' \<in> set (columns df)
      then (case par_thematique df of
              Inl e \<Rightarrow> ([Subheader Performance_par_thematique], Some e)
            | Inr d \<Rightarrow> ([Subheader Performance_par_thematique, BarThematiques d], None))
      else ([], None))"

definition visualisations :: "table \<Rightarrow> element list \<times> error option" where
  "visualisations df =
     (case graphique_temps df of
        Inl e \<Rightarrow> ([Subheader Evolution_dans_le_temps], Some e)
      | Inr g1 \<Rightarrow>
          (case graphique_lignes df of
             Inl e \<Rightarrow> ([Subheader Evolution_dans_le_temps] @ g1 @ [Subheader Lignes_a_surveiller], Some e)
           | Inr g2 \<Rightarrow>
               (let g3 = graphique_thematiques df
                in ([Subheader Evolution_dans_le_temps] @ g1 @ [Subheader Lignes_a_surveiller] @ g2 @ fst g3,
                    snd g3))))"

section \<open>Reading the cells of a row\<close>

text \<open>
  The functions of this section are used to state properties of rows: the text that
  \<^verbatim>\<open>astype(str)\<close> writes for a cell, the quarter index of a cell, the number a cell
  holds, and the year of a cell that holds an integer. \<open>cle_ligne\<close> is the cell that
  \<open>calc_sort_key\<close> computes for one row, from the cell of the year and the quarter index;
  \<open>entier\<close> tells whether the mapped quarter column is int64.
\<close>

fun texte :: "(rat \<Rightarrow> string) \<Rightarrow> cell \<Rightarrow> string" where
  "texte frepr NaN = ''nan''"
| "texte frepr (IntV i) = str_int i"
| "texte frepr (FloatV r) = frepr r"
| "texte frepr (StrV s) = s"

fun indice_trimestre :: "cell \<Rightarrow> int" where
  "indice_trimestre (StrV s) = (case map_of mapping_trimestre s of None \<Rightarrow> 0 | Some q \<Rightarrow> q)"
| "indice_trimestre c = 0"

fun nombre :: "cell \<Rightarrow> rat option" where
  "nombre (IntV i) = Some (of_int i)"
| "nombre (FloatV r) = Some r"
| "nombre c = None"

fun annee_entiere :: "cell \<Rightarrow> int option" where
  "annee_entiere (IntV i) = Some i"
| "annee_entiere (FloatV r) = (if of_int \<lfloor>r\<rfloor> = r then Some \<lfloor>r\<rfloor> else None)"
| "annee_entiere c = None"

fun cle_ligne :: "bool \<Rightarrow> cell \<Rightarrow> int \<Rightarrow> cell" where
  "cle_ligne entier (IntV y) q =
     (if entier then IntV (wrap64 (wrap64 (y * 10) + q))
      else FloatV (of_int (wrap64 (y * 10)) + of_int q))"
| "cle_ligne entier (FloatV y) q = FloatV (y * 10 + of_int q)"
| "cle_ligne entier c q = NaN"

text \<open>
  What a filter of lines 122-142 leaves true of the table it returns: the year filter
  found a sortable year column and kept the selected years; a text filter kept the
  selected text.
\<close>

definition annee_filtree :: "cell list \<Rightarrow> table \<Rightarrow> bool" where
  "annee_filtree sel df =
     (''annee'' \<in> set (columns df) \<longrightarrow>
        (\<exists>c. getitem df ''annee'' = Inr c \<and> triable c \<and>
           (sel \<noteq> [] \<longrightarrow> list_all (\<lambda>x. list_ex (egal x) sel) (cells c))))"

definition texte_filtre :: "string \<Rightarrow> string \<Rightarrow> string \<Rightarrow> table \<Rightarrow> bool" where
  "texte_filtre col tous v df =
     (col \<in> set (columns df) \<longrightarrow>
        (\<exists>c. getitem df col = Inr c \<and> (v \<noteq> tous \<longrightarrow> list_all (\<lambda>x. x = StrV v) (cells c))))"

text \<open>The measured value of a row, as a number.\<close>

definition valeur_ligne :: "row \<Rightarrow> rat option" where
  "valeur_ligne r = (case cell_of r ''valeur_reelle'' of None \<Rightarrow> None | Some c \<Rightarrow> nombre c)"

text \<open>
  What the normalisation establishes of the table it returns when the table has a
  measured column, and what the filters keep true: the columns have one length, and the
  one \<^verbatim>\<open>valeur_reelle\<close> column is numeric and has no missing cell.
\<close>

definition normalisee :: "table \<Rightarrow> bool" where
  "normalisee df =
     (wf_table df \<and>
      (\<exists>vc vs. getitem df ''valeur_reelle'' = Inr vc \<and> valeurs vc = Inr vs \<and>
         NaN \<notin> set (cells vc)))"

section \<open>Example tables\<close>

text \<open>Tables on which the model is run below.\<close>

abbreviation (input) ex_sans_valeur :: table where
  "ex_sans_valeur \<equiv> [(''Ligne '', Obj [Some ''A''])]"

abbreviation (input) ex_mesures :: table where
  "ex_mesures \<equiv>
     [(''Resultat_Indicateurs_EN '', Obj [Some ''95,0'', Some ''abc'']),
      (''ligne'', Obj [Some ''A'', Some ''B''])]"


abbreviation (input) ex_debordement :: table where
  "ex_debordement \<equiv>
     [(''annee'', I64 [1, 922337203685477581]),
      (''trimestre'', Obj [Some ''T1'', Some ''T1'']),
      (''valeur_reelle'', F64 [Some 1, Some 1])]"

abbreviation (input) ex_trimestres :: table where
  "ex_trimestres \<equiv>
     [(''annee'', I64 [2022, 2023]),
      (''trimestre'', Obj [Some ''T4'', None]),
      (''valeur_reelle'', F64 [Some 1, Some 2])]"

abbreviation (input) ligne_2022_T4 :: row where
  "ligne_2022_T4 \<equiv>
     [(''annee'', IntV 2022), (''trimestre'', StrV ''T4''), (''valeur_reelle'', FloatV 1),
      (''periode_label'', StrV ''2022 - T4''), (''sort_key'', FloatV 20224)]"

abbreviation (input) ligne_2023_nan :: row where
  "ligne_2023_nan \<equiv>
     [(''annee'', IntV 2023), (''trimestre'', NaN), (''valeur_reelle'', FloatV 2),
      (''periode_label'', StrV ''2023 - nan''), (''sort_key'', FloatV 20230)]"

abbreviation (input) ex_modes :: table where
  "ex_modes \<equiv>
     [(''mode'', Obj [Some ''Bus'', None, Some ''Metro'', Some ''Bus'']),
      (''thematique'', Obj [Some ''R'', Some ''R'', None, Some ''P'']),
      (''valeur_reelle'', F64 [Some 1, Some 2, Some 3, Some 4])]"

abbreviation (input) ex_filtres :: table where
  "ex_filtres \<equiv>
     [(''annee'', I64 [2022, 2023, 2023]),
      (''mode'', Obj [Some ''Bus'', Some ''Bus'', None]),
      (''thematique'', Obj [Some ''R'', Some ''P'', Some ''R''])]"

abbreviation (input) ex_criteres :: criteres where
  "ex_criteres \<equiv> \<lparr>annees_sel = [IntV 2023], mode_sel = ''Bus'', theme_sel = ''Toutes''\<rparr>"

abbreviation (input) ex_lignes :: table where
  "ex_lignes \<equiv>
     [(''ligne'', Obj [Some ''B'', Some ''A'', None, Some ''B'', Some ''C'']),
      (''thematique'', Obj [Some ''R'', None, Some ''R'', Some ''P'', Some ''P'']),
      (''valeur_reelle'', F64 [Some 90, Some 80, Some 10, Some 96, Some 85])]"


abbreviation (input) ex_sans_thematique :: table where
  "ex_sans_thematique \<equiv>
     [(''annee'', I64 [2023]), (''trimestre'', Obj [Some ''T1'']), (''ligne'', Obj [Some ''A'']),
      (''valeur_reelle'', F64 [Some 95]), (''periode_label'', Obj [Some ''2023 - T1'']),
      (''sort_key'', I64 [20231])]"

abbreviation (input) ex_sans_ligne :: table where
  "ex_sans_ligne \<equiv> [(''thematique'', Obj [Some ''R'']), (''valeur_reelle'', F64 [Some 95])]"

abbreviation (input) ex_sans_mesure :: table where
  "ex_sans_mesure \<equiv>
     [(''annee'', I64 [2023]), (''trimestre'', Obj [Some ''T1'']), (''ligne'', Obj [Some ''A''])]"

section \<open>Lemmas on tables\<close>



lemma filter_setitem:
  "filter (\<lambda>lc. fst lc = l') (setitem df l s) =
     (if l' = l
      then (if l \<in> set (columns df) then map (\<lambda>_. (l, s)) (filter (\<lambda>lc. fst lc = l) df) else [(l, s)])
      else filter (\<lambda>lc. fst lc = l') df)"
proof -
  have a: "filter (\<lambda>lc. fst lc = l') (map (\<lambda>lc. if fst lc = l then (l, s) else lc) df) =
        (if l' = l then map (\<lambda>_. (l, s)) (filter (\<lambda>lc. fst lc = l) df)
         else filter (\<lambda>lc. fst lc = l') df)"
    by (induction df) auto
  have b: "l \<notin> set (columns df) \<Longrightarrow> filter (\<lambda>lc. fst lc = l) df = []"
    by (induction df) (auto simp: columns_def)
  show ?thesis using a b by (auto simp: setitem_def)
qed

lemma getitem_setitem_other: "l' \<noteq> l \<Longrightarrow> getitem (setitem df l s) l' = getitem df l'"
  by (simp add: getitem_def filter_setitem)

lemma getitem_setitem_same:
  "getitem df l = Inr c \<Longrightarrow> getitem (setitem df l s) l = Inr s"
  by (auto simp: getitem_def filter_setitem split: list.splits if_splits)

lemma getitem_setitem_new:
  "l \<notin> set (columns df) \<Longrightarrow> getitem (setitem df l s) l = Inr s"
  by (auto simp: getitem_def filter_setitem)

lemma columns_setitem:
  "columns (setitem df l s) = (if l \<in> set (columns df) then columns df else columns df @ [l])"
  by (auto simp: setitem_def columns_def intro!: map_idI[symmetric])

lemma getitem_absent: "l \<notin> set (columns df) \<Longrightarrow> getitem df l = Inl (KeyError l)"
proof -
  assume "l \<notin> set (columns df)"
  then have "filter (\<lambda>lc. fst lc = l) df = []"
    by (induction df) (auto simp: columns_def)
  then show ?thesis by (simp add: getitem_def)
qed

lemma getitem_present:
  "l \<in> set (columns df) \<Longrightarrow> getitem df l \<noteq> Inl (KeyError l')"
proof -
  assume "l \<in> set (columns df)"
  then have "filter (\<lambda>lc. fst lc = l) df \<noteq> []"
    by (induction df) (auto simp: columns_def)
  then show ?thesis by (auto simp: getitem_def split: list.splits)
qed


lemma getitem_Inr_columns: "getitem df l = Inr c \<Longrightarrow> l \<in> set (columns df)"
  using getitem_absent by fastforce



subsection \<open>Selecting rows\<close>

lemma select_map: "select m (map f xs) = map f (select m xs)"
  by (induction m xs rule: select.induct) auto

lemma select_zip: "select m (zip xs ys) = zip (select m xs) (select m ys)"
proof (induction m arbitrary: xs ys)
  case Nil
  then show ?case by simp
next
  case (Cons b m)
  show ?case
  proof (cases xs)
    case Nil
    then show ?thesis by simp
  next
    case xs: (Cons x xs')
    show ?thesis
    proof (cases ys)
      case Nil
      then show ?thesis by (cases "select (b # m) xs") simp_all
    next
      case (Cons y ys')
      with xs Cons.IH show ?thesis by simp
    qed
  qed
qed

lemma set_select: "set (select m xs) \<subseteq> set xs"
  by (induction m xs rule: select.induct) auto

lemma select_map_pred: "x \<in> set (select (map P xs) xs) \<Longrightarrow> P x"
  by (induction xs) (auto split: if_splits)

lemma cells_select_col: "cells (select_col m c) = select m (cells c)"
  by (cases c) (simp_all add: select_map)

lemma columns_select_rows: "columns (select_rows m df) = columns df"
  by (simp add: select_rows_def columns_def comp_def)

lemma filter_select_rows:
  "filter (\<lambda>lc. fst lc = l) (select_rows m df) =
     map (\<lambda>lc. (fst lc, select_col m (snd lc))) (filter (\<lambda>lc. fst lc = l) df)"
  by (induction df) (auto simp: select_rows_def)

lemma getitem_select_rows:
  "getitem (select_rows m df) l =
     (case getitem df l of Inl e \<Rightarrow> Inl e | Inr c \<Rightarrow> Inr (select_col m c))"
  by (auto simp: getitem_def filter_select_rows split: list.splits)

lemma notna_cells: "notna c = map (\<lambda>x. x \<noteq> NaN) (cells c)"
  by (cases c) (auto split: option.splits)

lemma select_notna: "NaN \<notin> set (cells (select_col (notna c) c))"
  using select_map_pred[of NaN "\<lambda>x. x \<noteq> NaN" "cells c"]
  by (auto simp: cells_select_col notna_cells)

subsection \<open>Rows\<close>

lemma rows_of_nth:
  "i < length (rows_of df) \<Longrightarrow>
     rows_of df ! i = map (\<lambda>lc. (fst lc, cells (snd lc) ! i)) df \<and>
     (\<forall>lc \<in> set df. i < length (cells (snd lc)))"
  by (induction df rule: rows_of.induct) auto

lemma rows_of_index:
  assumes "r \<in> set (rows_of df)"
  obtains i where "i < length (rows_of df)" "r = map (\<lambda>lc. (fst lc, cells (snd lc) ! i)) df"
    "\<forall>lc \<in> set df. i < length (cells (snd lc))"
  using assms rows_of_nth by (metis in_set_conv_nth)

lemma map_of_unique:
  "filter (\<lambda>lc. fst lc = l) df = [lc] \<Longrightarrow>
     map_of (map (\<lambda>lc. (fst lc, g (snd lc))) df) l = Some (g (snd lc))"
  by (induction df) (auto split: if_splits)

lemma getitem_filter: "getitem df l = Inr c \<Longrightarrow> filter (\<lambda>lc. fst lc = l) df = [(l, c)]"
proof -
  assume a: "getitem df l = Inr c"
  then obtain lc where f: "filter (\<lambda>lc. fst lc = l) df = [lc]" and c: "snd lc = c"
    by (auto simp: getitem_def split: list.splits)
  from f have "lc \<in> set (filter (\<lambda>lc. fst lc = l) df)" by simp
  then have "fst lc = l" by simp
  with f c show ?thesis by (cases lc) simp
qed

lemma getitem_set: "getitem df l = Inr c \<Longrightarrow> (l, c) \<in> set df"
proof -
  assume "getitem df l = Inr c"
  then have "(l, c) \<in> set (filter (\<lambda>lc. fst lc = l) df)" by (simp add: getitem_filter)
  then show ?thesis by simp
qed

lemma row_cell:
  assumes "r \<in> set (rows_of df)" and "getitem df l = Inr c"
  obtains i where "i < length (cells c)" "cell_of r l = Some (cells c ! i)"
    "r = map (\<lambda>lc. (fst lc, cells (snd lc) ! i)) df"
proof -
  from assms(1) obtain i where i: "r = map (\<lambda>lc. (fst lc, cells (snd lc) ! i)) df"
    "\<forall>lc \<in> set df. i < length (cells (snd lc))"
    by (rule rows_of_index)
  from assms(2) have "cell_of r l = Some (cells c ! i)"
    unfolding cell_of_def i(1)
    using map_of_unique[OF getitem_filter, of df l c "\<lambda>c. cells c ! i"] by simp
  moreover have "i < length (cells c)" using i(2) getitem_set[OF assms(2)] by auto
  ultimately show ?thesis using i(1) that by blast
qed

lemma cell_at_row:
  "r = map (\<lambda>lc. (fst lc, cells (snd lc) ! i)) df \<Longrightarrow> getitem df l = Inr c \<Longrightarrow>
     cell_of r l = Some (cells c ! i)"
  unfolding cell_of_def
  using map_of_unique[OF getitem_filter, of df l c "\<lambda>c. cells c ! i"] by simp

subsection \<open>The steps of the normalisation\<close>

lemma convertir_Cons_ok:
  assumes "convertir parse frepr (col # cols) df = (df', None)"
  shows "(col \<in> set (columns df) \<longrightarrow>
            (\<exists>c. getitem df col = Inr c \<and>
                 convertir parse frepr cols (setitem df col (convertir_colonne parse frepr c)) = (df', None))) \<and>
         (col \<notin> set (columns df) \<longrightarrow> convertir parse frepr cols df = (df', None))"
  using assms by (auto simp: convertir.simps split: sum.splits)

lemma convertir_numeriques_ok:
  assumes "convertir parse frepr cols_numeriques df = (df', None)"
  shows "columns df' = columns df"
    and "l \<notin> set cols_numeriques \<Longrightarrow> getitem df' l = getitem df l"
    and "l \<in> set cols_numeriques \<Longrightarrow> l \<in> set (columns df) \<Longrightarrow>
           \<exists>c. getitem df l = Inr c \<and> getitem df' l = Inr (convertir_colonne parse frepr c)"
proof -
  let ?vr = "''valeur_reelle''" and ?vo = "''valeur_objectif''"
  let ?conv = "convertir_colonne parse frepr"
  define df1 where "df1 = (case getitem df ?vr of Inr c \<Rightarrow> setitem df ?vr (?conv c) | Inl e \<Rightarrow> df)"
  have a: "convertir parse frepr [?vr, ?vo] df = (df', None)"
    using assms by (simp add: cols_numeriques_def)
  have s1: "convertir parse frepr [?vo] df1 = (df', None)"
    and g1: "?vr \<in> set (columns df) \<Longrightarrow> \<exists>c. getitem df ?vr = Inr c"
    using convertir_Cons_ok[OF a] by (auto simp: df1_def getitem_absent)
  have s2: "df' = (case getitem df1 ?vo of Inr c \<Rightarrow> setitem df1 ?vo (?conv c) | Inl e \<Rightarrow> df1)"
    and g2: "?vo \<in> set (columns df1) \<Longrightarrow> \<exists>c. getitem df1 ?vo = Inr c"
    using convertir_Cons_ok[OF s1] by (auto simp: getitem_absent convertir.simps)
  have c1: "columns df1 = columns df"
    by (auto simp: df1_def columns_setitem dest: getitem_Inr_columns split: sum.splits)
  show c2: "columns df' = columns df"
    using c1 by (auto simp: s2 columns_setitem dest: getitem_Inr_columns split: sum.splits)
  have o1: "l \<noteq> ?vr \<Longrightarrow> getitem df1 l = getitem df l" for l
    by (simp add: df1_def getitem_setitem_other split: sum.splits)
  have o2: "l \<noteq> ?vo \<Longrightarrow> getitem df' l = getitem df1 l" for l
    by (simp add: s2 getitem_setitem_other split: sum.splits)
  show "l \<notin> set cols_numeriques \<Longrightarrow> getitem df' l = getitem df l"
    using o1 o2 by (simp add: cols_numeriques_def)
  have v1: "?vr \<in> set (columns df) \<Longrightarrow>
      \<exists>c. getitem df ?vr = Inr c \<and> getitem df' ?vr = Inr (?conv c)"
    using g1 o2[of ?vr] by (auto simp: df1_def getitem_setitem_same)
  have v2: "?vo \<in> set (columns df) \<Longrightarrow>
      \<exists>c. getitem df ?vo = Inr c \<and> getitem df' ?vo = Inr (?conv c)"
    using g2 c1 o1[of ?vo] by (auto simp: s2 getitem_setitem_same)
  show "l \<in> set cols_numeriques \<Longrightarrow> l \<in> set (columns df) \<Longrightarrow>
           \<exists>c. getitem df l = Inr c \<and> getitem df' l = Inr (convertir_colonne parse frepr c)"
    using v1 v2 by (auto simp: cols_numeriques_def)
qed

lemma deriver_ok:
  assumes "deriver frepr df = (df', None)"
  shows "(''annee'' \<in> set (columns df) \<and> ''trimestre'' \<in> set (columns df) \<and>
          (\<exists>a t k. getitem df ''annee'' = Inr a \<and> getitem df ''trimestre'' = Inr t \<and>
             calc_sort_key a (map_trimestre t) = Inr k \<and>
             df' = setitem (setitem df ''periode_label'' (calc_periode_label frepr a t)) ''sort_key'' k)) \<or>
         (\<not> (''annee'' \<in> set (columns df) \<and> ''trimestre'' \<in> set (columns df)) \<and> df' = df)"
  using assms by (auto simp: deriver_def Let_def split: if_splits sum.splits)

lemma dropna_unique: "getitem df l = Inr c \<Longrightarrow> dropna l df = Inr (select_rows (notna c) df)"
  by (simp add: dropna_def getitem_filter)

lemma supprimer_vides_ok:
  assumes "supprimer_vides df = (df', None)"
  shows "''valeur_reelle'' \<notin> set (columns df) \<Longrightarrow> df' = df"
    and "getitem df ''valeur_reelle'' = Inr c \<Longrightarrow> df' = select_rows (notna c) df"
  using assms
  by (auto simp: supprimer_vides_def dropna_unique dest: getitem_Inr_columns split: if_splits sum.splits)

lemma puis_ok: "puis r f = (df', None) \<Longrightarrow> \<exists>df1. r = (df1, None) \<and> f df1 = (df', None)"
  by (cases r) (auto simp: puis_def split: option.splits)

lemma nettoyer_corps_ok:
  assumes "nettoyer_corps parse frepr df = (df', None)"
  obtains df3 df4 where
    "convertir parse frepr cols_numeriques (rename (standardiser_colonnes df)) = (df3, None)"
    "deriver frepr df3 = (df4, None)" "supprimer_vides df4 = (df', None)"
    "avant_suppression parse frepr df = (df4, None)"
  using assms unfolding nettoyer_corps_def avant_suppression_def by (blast dest: puis_ok)

lemma nettoyer_donnees_ok:
  assumes "nettoyer_donnees parse frepr p st = (st', Inr q)"
  shows "q = p" and "nettoyer_corps parse frepr (st p) = (st' p, None)"
  using assms by (auto simp: nettoyer_donnees_def split: prod.splits option.splits)

lemma deriver_getitem_valeur:
  assumes "deriver frepr df = (df', None)" and "l \<noteq> ''periode_label''" "l \<noteq> ''sort_key''"
  shows "getitem df' l = getitem df l"
  using deriver_ok[OF assms(1)] assms(2,3) by (auto simp: getitem_setitem_other)

lemma deriver_columns:
  assumes "deriver frepr df = (df', None)" and "l \<noteq> ''periode_label''" "l \<noteq> ''sort_key''"
  shows "l \<in> set (columns df') \<longleftrightarrow> l \<in> set (columns df)"
  using deriver_ok[OF assms(1)] assms(2,3) by (auto simp: columns_setitem split: if_splits)

lemma supprimer_columns:
  assumes "supprimer_vides df = (df', None)"
  shows "columns df' = columns df"
  using assms
  by (auto simp: supprimer_vides_def dropna_def columns_select_rows split: if_splits sum.splits list.splits)

text \<open>The measured column of a normalised table.\<close>

lemma nettoyer_valeur_reelle:
  assumes "nettoyer_corps parse frepr df = (df', None)" and "''valeur_reelle'' \<in> set (columns df')"
  obtains df4 c c0 where "avant_suppression parse frepr df = (df4, None)"
    "getitem df4 ''valeur_reelle'' = Inr c"
    "df' = select_rows (notna c) df4"
    "getitem df' ''valeur_reelle'' = Inr (select_col (notna c) c)"
    "c = convertir_colonne parse frepr c0"
proof -
  from assms(1) obtain df3 df4 where
    s3: "convertir parse frepr cols_numeriques (rename (standardiser_colonnes df)) = (df3, None)"
    and s4: "deriver frepr df3 = (df4, None)" and s5: "supprimer_vides df4 = (df', None)"
    and s14: "avant_suppression parse frepr df = (df4, None)"
    by (rule nettoyer_corps_ok)
  let ?df2 = "rename (standardiser_colonnes df)"
  have "''valeur_reelle'' \<in> set (columns df4)" using assms(2) supprimer_columns[OF s5] by simp
  then have "''valeur_reelle'' \<in> set (columns df3)" using deriver_columns[OF s4] by simp
  then have "''valeur_reelle'' \<in> set (columns ?df2)" using convertir_numeriques_ok(1)[OF s3] by simp
  then obtain c c0 where "getitem df3 ''valeur_reelle'' = Inr c"
    and c0: "c = convertir_colonne parse frepr c0"
    using convertir_numeriques_ok(3)[OF s3, of "''valeur_reelle''"] by (auto simp: cols_numeriques_def)
  then have g4: "getitem df4 ''valeur_reelle'' = Inr c"
    using deriver_getitem_valeur[OF s4, of "''valeur_reelle''"] by simp
  have e: "df' = select_rows (notna c) df4" using supprimer_vides_ok(2)[OF s5 g4] .
  have "getitem df' ''valeur_reelle'' = Inr (select_col (notna c) c)"
    by (simp add: e getitem_select_rows g4)
  with s14 g4 e c0 show ?thesis using that by blast
qed

subsection \<open>The derived columns\<close>

lemma astype_str_cells: "astype_str frepr c = map (texte frepr) (cells c)"
  by (cases c) (auto simp: astype_str_def split: option.splits)

lemma cells_periode_label:
  "cells (calc_periode_label frepr a t) =
     map (\<lambda>(x, y). StrV (texte frepr x @ '' - '' @ texte frepr y)) (zip (cells a) (cells t))"
  by (simp add: calc_periode_label_def astype_str_cells zip_map1 zip_map2 split_def)

lemma fillna0_map_trimestre: "fillna0 (map_trimestre t) = map indice_trimestre (cells t)"
  by (cases t) (auto simp: fillna0_def map_trimestre_def split: option.splits)

lemma cells_sort_key:
  assumes "calc_sort_key a (map_trimestre t) = Inr k"
  shows "cells k =
     map (\<lambda>(x, y). cle_ligne (list_all (\<lambda>q. q \<noteq> None) (map_trimestre t)) x (indice_trimestre y))
       (zip (cells a) (cells t))"
proof (cases a)
  case (I64 ys)
  with assms show ?thesis
    by (auto simp: calc_sort_key_def Let_def fillna0_map_trimestre zip_map1 zip_map2 split_def
        split: if_splits)
next
  case (F64 ys)
  with assms show ?thesis
    by (auto simp: calc_sort_key_def Let_def fillna0_map_trimestre zip_map1 zip_map2 split_def
        split: option.splits)
next
  case (Obj ys)
  with assms have n: "\<forall>y \<in> set ys. y = None"
    by (auto simp: calc_sort_key_def Let_def list_ex_iff split: if_splits)
  have k: "k = Obj (map (\<lambda>(y, q). None) (zip ys (map indice_trimestre (cells t))))"
    using assms Obj by (auto simp: calc_sort_key_def Let_def fillna0_map_trimestre split: if_splits)
  have "\<And>p. p \<in> set (zip ys (cells t)) \<Longrightarrow> fst p = None"
    using n by (auto dest: set_zip_leftD)
  then show ?thesis
    unfolding k Obj by (auto simp: zip_map1 zip_map2 split_def)
qed

lemma select_derived:
  "cells k = map g (zip (cells a) (cells t)) \<Longrightarrow>
     cells (select_col m k) = map g (zip (cells (select_col m a)) (cells (select_col m t)))"
  by (simp add: cells_select_col select_map select_zip)

lemma map_of_setitem_same: "map_of (setitem df l s) l = Some s"
proof (cases "l \<in> set (columns df)")
  case True
  then have "map_of (map (\<lambda>lc. if fst lc = l then (l, s) else lc) df) l = Some s"
    by (induction df) (auto simp: columns_def)
  with True show ?thesis by (simp add: setitem_def)
next
  case False
  then have "map_of df l = None" by (simp add: columns_def map_of_eq_None_iff)
  with False show ?thesis by (simp add: setitem_def map_add_def)
qed

lemma map_of_setitem_other: "l' \<noteq> l \<Longrightarrow> map_of (setitem df l s) l' = map_of df l'"
proof -
  assume n: "l' \<noteq> l"
  then have "map_of (map (\<lambda>lc. if fst lc = l then (l, s) else lc) df) l' = map_of df l'"
    by (induction df) auto
  with n show ?thesis by (auto simp: setitem_def map_add_def split: option.splits)
qed

lemma map_of_select_rows:
  "map_of (select_rows m df) l = map_option (select_col m) (map_of df l)"
  by (induction df) (auto simp: select_rows_def)

lemma getitem_map_of: "getitem df l = Inr c \<Longrightarrow> map_of df l = Some c"
proof -
  assume "getitem df l = Inr c"
  then have f: "filter (\<lambda>lc. fst lc = l) df = [(l, c)]" by (rule getitem_filter)
  then show ?thesis by (induction df) (auto split: if_splits)
qed

lemma map_of_row:
  "map_of df l = Some c \<Longrightarrow>
     cell_of (map (\<lambda>lc. (fst lc, cells (snd lc) ! i)) df) l = Some (cells c ! i)"
  unfolding cell_of_def by (induction df) auto

lemma supprimer_vides_select:
  assumes "supprimer_vides df = (df', None)"
  shows "df' = df \<or> (\<exists>m. df' = select_rows m df)"
  using assms
  by (auto simp: supprimer_vides_def dropna_def split: if_splits sum.splits list.splits)

lemma nettoyer_derives:
  assumes run: "nettoyer_corps parse frepr df = (df', None)"
    and cols: "''annee'' \<in> set (columns df')" "''trimestre'' \<in> set (columns df')"
  obtains a t pl k e where
    "map_of df' ''annee'' = Some a" "map_of df' ''trimestre'' = Some t"
    "map_of df' ''periode_label'' = Some pl" "map_of df' ''sort_key'' = Some k"
    "cells pl = map (\<lambda>(x, y). StrV (texte frepr x @ '' - '' @ texte frepr y)) (zip (cells a) (cells t))"
    "cells k = map (\<lambda>(x, y). cle_ligne e x (indice_trimestre y)) (zip (cells a) (cells t))"
proof -
  from run obtain df3 df4 where
    s4: "deriver frepr df3 = (df4, None)" and s5: "supprimer_vides df4 = (df', None)"
    by (rule nettoyer_corps_ok)
  have "''annee'' \<in> set (columns df4)" "''trimestre'' \<in> set (columns df4)"
    using cols supprimer_columns[OF s5] by simp_all
  then have "''annee'' \<in> set (columns df3)" "''trimestre'' \<in> set (columns df3)"
    using deriver_columns[OF s4] by simp_all
  with deriver_ok[OF s4] obtain a t k where
    ga: "getitem df3 ''annee'' = Inr a" and gt: "getitem df3 ''trimestre'' = Inr t"
    and ck: "calc_sort_key a (map_trimestre t) = Inr k"
    and d4: "df4 = setitem (setitem df3 ''periode_label'' (calc_periode_label frepr a t)) ''sort_key'' k"
    by auto
  let ?pl = "calc_periode_label frepr a t"
  let ?e = "list_all (\<lambda>q. q \<noteq> None) (map_trimestre t)"
  let ?gp = "\<lambda>(x, y). StrV (texte frepr x @ '' - '' @ texte frepr y)"
  let ?gk = "\<lambda>(x, y). cle_ligne ?e x (indice_trimestre y)"
  have m4: "map_of df4 ''annee'' = Some a" "map_of df4 ''trimestre'' = Some t"
    "map_of df4 ''periode_label'' = Some ?pl" "map_of df4 ''sort_key'' = Some k"
    using getitem_map_of[OF ga] getitem_map_of[OF gt]
    by (simp_all add: d4 map_of_setitem_same map_of_setitem_other)
  have cp: "cells ?pl = map ?gp (zip (cells a) (cells t))" by (rule cells_periode_label)
  have ckk: "cells k = map ?gk (zip (cells a) (cells t))" by (rule cells_sort_key[OF ck])
  from supprimer_vides_select[OF s5] show ?thesis
  proof
    assume "df' = df4"
    with m4 cp ckk that show ?thesis by blast
  next
    assume "\<exists>m. df' = select_rows m df4"
    then obtain m where m: "df' = select_rows m df4" ..
    have "map_of df' ''annee'' = Some (select_col m a)" "map_of df' ''trimestre'' = Some (select_col m t)"
      "map_of df' ''periode_label'' = Some (select_col m ?pl)" "map_of df' ''sort_key'' = Some (select_col m k)"
      by (simp_all add: m map_of_select_rows m4)
    moreover have "cells (select_col m ?pl) = map ?gp (zip (cells (select_col m a)) (cells (select_col m t)))"
      by (rule select_derived[OF cp])
    moreover have "cells (select_col m k) = map ?gk (zip (cells (select_col m a)) (cells (select_col m t)))"
      by (rule select_derived[OF ckk])
    ultimately show ?thesis using that by blast
  qed
qed

lemma nettoyer_ligne:
  assumes run: "nettoyer_corps parse frepr df = (df', None)"
    and cols: "''annee'' \<in> set (columns df')" "''trimestre'' \<in> set (columns df')"
    and r: "r \<in> set (rows_of df')"
  obtains x y e where
    "cell_of r ''annee'' = Some x" "cell_of r ''trimestre'' = Some y"
    "cell_of r ''periode_label'' = Some (StrV (texte frepr x @ '' - '' @ texte frepr y))"
    "cell_of r ''sort_key'' = Some (cle_ligne e x (indice_trimestre y))"
proof -
  from run cols obtain a t pl k e where
    m: "map_of df' ''annee'' = Some a" "map_of df' ''trimestre'' = Some t"
       "map_of df' ''periode_label'' = Some pl" "map_of df' ''sort_key'' = Some k"
    and cp: "cells pl = map (\<lambda>(x, y). StrV (texte frepr x @ '' - '' @ texte frepr y)) (zip (cells a) (cells t))"
    and ck: "cells k = map (\<lambda>(x, y). cle_ligne e x (indice_trimestre y)) (zip (cells a) (cells t))"
    by (rule nettoyer_derives)
  from r obtain i where i: "r = map (\<lambda>lc. (fst lc, cells (snd lc) ! i)) df'"
    "\<forall>lc \<in> set df'. i < length (cells (snd lc))"
    by (rule rows_of_index)
  have "(''annee'', a) \<in> set df'" "(''trimestre'', t) \<in> set df'"
    using m(1,2) by (auto dest: map_of_SomeD)
  with i(2) have la: "i < length (cells a)" and lt: "i < length (cells t)" by auto
  have c: "cell_of r ''annee'' = Some (cells a ! i)" "cell_of r ''trimestre'' = Some (cells t ! i)"
    "cell_of r ''periode_label'' = Some (cells pl ! i)" "cell_of r ''sort_key'' = Some (cells k ! i)"
    unfolding i(1) using m by (simp_all add: map_of_row)
  have "cells pl ! i = StrV (texte frepr (cells a ! i) @ '' - '' @ texte frepr (cells t ! i))"
    using la lt by (simp add: cp)
  moreover have "cells k ! i = cle_ligne e (cells a ! i) (indice_trimestre (cells t ! i))"
    using la lt by (simp add: ck)
  ultimately show ?thesis using c that by simp
qed

subsection \<open>Rows kept by a mask\<close>

lemma select_Nil2: "select m [] = []"
  by (cases m) simp_all

lemma rows_of_select_rows: "rows_of (select_rows m df) = select m (rows_of df)"
proof (induction df rule: rows_of.induct)
  case 1
  then show ?case by (simp add: select_rows_def select_Nil2)
next
  case (2 lc)
  then show ?case by (simp add: select_rows_def cells_select_col select_map)
next
  case (3 lc v va)
  have "rows_of (select_rows m (lc # v # va)) =
          map (\<lambda>(x, r). (fst lc, x) # r)
            (zip (cells (select_col m (snd lc))) (rows_of (select_rows m (v # va))))"
    by (simp add: select_rows_def)
  also have "\<dots> = map (\<lambda>(x, r). (fst lc, x) # r)
            (select m (zip (cells (snd lc)) (rows_of (v # va))))"
    by (simp only: "3.IH" cells_select_col select_zip)
  also have "\<dots> = select m (rows_of (lc # v # va))"
    by (simp add: select_map)
  finally show ?case .
qed

lemma select_aligned:
  "length xs \<le> length cs \<Longrightarrow> (\<forall>i < length xs. g (xs ! i) = cs ! i) \<Longrightarrow>
     select (map p cs) xs = filter (\<lambda>x. p (g x)) xs"
proof (induction xs arbitrary: cs)
  case Nil
  then show ?case by (simp add: select_Nil2)
next
  case (Cons x xs)
  then obtain c cs' where cs: "cs = c # cs'" by (cases cs) auto
  from Cons.prems cs have l: "length xs \<le> length cs'" by simp
  from Cons.prems(2) cs have h: "g x = c" by auto
  have "\<forall>i < length xs. g (xs ! i) = cs' ! i"
  proof (intro allI impI)
    fix i assume "i < length xs"
    then have "g ((x # xs) ! Suc i) = cs ! Suc i" using Cons.prems(2) by auto
    then show "g (xs ! i) = cs' ! i" by (simp add: cs)
  qed
  with Cons.IH[OF l] have "select (map p cs') xs = filter (\<lambda>x. p (g x)) xs" by simp
  with h cs show ?case by simp
qed

lemma rows_of_length:
  "(l, c) \<in> set df \<Longrightarrow> length (rows_of df) \<le> length (cells c)"
proof -
  assume a: "(l, c) \<in> set df"
  show ?thesis
  proof (rule ccontr)
    assume "\<not> length (rows_of df) \<le> length (cells c)"
    then have "length (cells c) < length (rows_of df)" by simp
    from rows_of_nth[OF this] a show False by auto
  qed
qed





lemma calc_sort_key_texte:
  "Some s \<in> set ys \<Longrightarrow> calc_sort_key (Obj ys) m = Inl TypeError"
  by (auto simp: calc_sort_key_def Let_def list_ex_iff)

lemma wrap64_id: "- (2 ^ 63) \<le> x \<Longrightarrow> x < 2 ^ 63 \<Longrightarrow> wrap64 x = x"
  by (simp add: wrap64_def)

lemma indice_trimestre_range: "0 \<le> indice_trimestre c \<and> indice_trimestre c \<le> 4"
  by (cases c) (auto simp: mapping_trimestre_def)

lemma nombre_cle_ligne:
  assumes "annee_entiere x = Some y" and "10 * \<bar>y\<bar> + 4 \<le> 2 ^ 53" and "0 \<le> k" "k \<le> 4"
  shows "nombre (cle_ligne e x k) = Some (of_int (y * 10 + k))"
proof (cases x)
  case (IntV i)
  with assms(1) have i: "i = y" by simp
  have b: "- (2 ^ 63) \<le> y * 10" "y * 10 < 2 ^ 63" "- (2 ^ 63) \<le> y * 10 + k" "y * 10 + k < 2 ^ 63"
    using assms(2,3,4) by simp_all
  have "wrap64 (y * 10) = y * 10" using b(1,2) by (rule wrap64_id)
  moreover have "wrap64 (y * 10 + k) = y * 10 + k" using b(3,4) by (rule wrap64_id)
  ultimately show ?thesis by (simp add: IntV i)
next
  case (FloatV r)
  with assms(1) have "of_int y = r" by (auto split: if_splits)
  then show ?thesis by (auto simp: FloatV)
qed (use assms(1) in simp_all)

lemma indice_trimestre_table:
  "indice_trimestre c =
     (if c = StrV ''T1'' then 1 else if c = StrV ''T2'' then 2
      else if c = StrV ''T3'' then 3 else if c = StrV ''T4'' then 4 else 0)"
  by (cases c) (auto simp: mapping_trimestre_def)

subsection \<open>Filters\<close>

lemma rows_of_select_pred:
  assumes "getitem df l = Inr c"
  shows "rows_of (select_rows (map P (cells c)) df) =
           filter (\<lambda>r. \<exists>x. cell_of r l = Some x \<and> P x) (rows_of df)"
proof -
  let ?g = "\<lambda>r. the (cell_of r l)"
  have len: "length (rows_of df) \<le> length (cells c)"
    using getitem_set[OF assms] by (rule rows_of_length)
  have al: "\<forall>i < length (rows_of df). cell_of (rows_of df ! i) l = Some (cells c ! i)"
    using rows_of_nth[of _ df] map_of_row[OF getitem_map_of[OF assms]] by simp
  then have al': "\<forall>i < length (rows_of df). ?g (rows_of df ! i) = cells c ! i" by simp
  have "rows_of (select_rows (map P (cells c)) df) = select (map P (cells c)) (rows_of df)"
    by (simp add: rows_of_select_rows)
  also have "\<dots> = filter (\<lambda>r. P (?g r)) (rows_of df)"
    using select_aligned[OF len al', of P] .
  also have "\<dots> = filter (\<lambda>r. \<exists>x. cell_of r l = Some x \<and> P x) (rows_of df)"
  proof (rule filter_cong[OF refl])
    fix r assume "r \<in> set (rows_of df)"
    then obtain i where "i < length (rows_of df)" "r = rows_of df ! i"
      by (metis in_set_conv_nth)
    with al have "cell_of r l = Some (cells c ! i)" by simp
    then show "P (?g r) = (\<exists>x. cell_of r l = Some x \<and> P x)" by simp
  qed
  finally show ?thesis .
qed

lemma filtre_texte_run:
  assumes "getitem df col = Inr c"
  shows "filtre_texte col tous v df =
           Inr (if v \<noteq> tous then select_rows (eq_text c v) df else df)"
  using assms getitem_Inr_columns[OF assms] by (simp add: filtre_texte_def)

lemma filtre_texte_rows:
  assumes "getitem df col = Inr c"
  shows "\<exists>df'. filtre_texte col tous v df = Inr df' \<and> columns df' = columns df \<and>
           rows_of df' =
             (if v = tous then rows_of df
              else filter (\<lambda>r. cell_of r col = Some (StrV v)) (rows_of df))"
proof (cases "v = tous")
  case True
  then show ?thesis by (simp add: filtre_texte_run[OF assms])
next
  case False
  have "rows_of (select_rows (eq_text c v) df) =
          filter (\<lambda>r. cell_of r col = Some (StrV v)) (rows_of df)"
    unfolding eq_text_def rows_of_select_pred[OF assms] by simp
  with False show ?thesis by (simp add: filtre_texte_run[OF assms] columns_select_rows)
qed

lemma length_select: "length (select m xs) = length (filter id (take (length xs) m))"
  by (induction m xs rule: select.induct) auto

lemma longueur_cells: "longueur c = length (cells c)"
  by (cases c) simp_all

lemma longueur_select_col:
  "longueur (select_col m c) = length (filter id (take (longueur c) m))"
  by (cases c) (simp_all add: length_select)

lemma wf_table_iff: "wf_table df \<longleftrightarrow> (\<forall>lc \<in> set df. \<forall>lc' \<in> set df. longueur (snd lc) = longueur (snd lc'))"
proof (cases df)
  case Nil
  then show ?thesis by (simp add: wf_table_def)
next
  case (Cons a df')
  have "(\<forall>lc \<in> set df. longueur (snd lc) = longueur (snd a)) \<longleftrightarrow>
        (\<forall>lc \<in> set df. \<forall>lc' \<in> set df. longueur (snd lc) = longueur (snd lc'))"
    unfolding Cons by (metis list.set_intros(1))
  then show ?thesis by (simp add: wf_table_def list_all_iff Cons)
qed

lemma wf_select_rows: "wf_table df \<Longrightarrow> wf_table (select_rows m df)"
proof -
  assume w: "wf_table df"
  have "\<forall>lc \<in> set (select_rows m df). \<forall>lc' \<in> set (select_rows m df).
          longueur (snd lc) = longueur (snd lc')"
  proof (intro ballI)
    fix lc lc' assume "lc \<in> set (select_rows m df)" "lc' \<in> set (select_rows m df)"
    then obtain x x' where x: "x \<in> set df" "snd lc = select_col m (snd x)"
      and x': "x' \<in> set df" "snd lc' = select_col m (snd x')"
      unfolding select_rows_def by fastforce
    from w x(1) x'(1) have "longueur (snd x) = longueur (snd x')"
      unfolding wf_table_iff by blast
    then show "longueur (snd lc) = longueur (snd lc')"
      by (simp add: x(2) x'(2) longueur_select_col)
  qed
  then show ?thesis by (rule wf_table_iff[THEN iffD2])
qed

lemma select_all_True: "length xs \<le> length m \<Longrightarrow> list_all id m \<Longrightarrow> select m xs = xs"
proof (induction xs arbitrary: m)
  case Nil
  then show ?case by (simp add: select_Nil2)
next
  case (Cons x xs)
  then obtain b bs where m: "m = b # bs" by (cases m) auto
  with Cons.prems have p: "b" "length xs \<le> length bs" "list_all id bs"
    by (simp_all add: id_def)
  from Cons.IH[OF p(2,3)] m p(1) show ?case by simp
qed

lemma select_col_all_True:
  "longueur c \<le> length m \<Longrightarrow> list_all id m \<Longrightarrow> select_col m c = c"
  by (cases c) (simp_all add: select_all_True)

lemma select_rows_stable:
  assumes "wf_table df" and "getitem df l = Inr c" and "list_all P (cells c)"
  shows "select_rows (map P (cells c)) df = df"
proof -
  have m: "list_all id (map P (cells c))" using assms(3) by (simp add: list_all_iff)
  have "\<And>lc. lc \<in> set df \<Longrightarrow> select_col (map P (cells c)) (snd lc) = snd lc"
  proof -
    fix lc assume "lc \<in> set df"
    with assms(1) getitem_set[OF assms(2)] have "longueur (snd lc) = longueur c"
      unfolding wf_table_iff by fastforce
    then have "longueur (snd lc) \<le> length (map P (cells c))" by (simp add: longueur_cells)
    then show "select_col (map P (cells c)) (snd lc) = snd lc" using m by (rule select_col_all_True)
  qed
  then show ?thesis by (simp add: select_rows_def map_idI)
qed

lemma list_all_select: "list_all P xs \<Longrightarrow> list_all P (select m xs)"
  using set_select[of m xs] by (auto simp: list_all_iff)

lemma triable_select_col: "triable c \<Longrightarrow> triable (select_col m c)"
proof (cases c)
  case (Obj xs)
  assume "triable c"
  with Obj show ?thesis
    using set_select[of m xs] by (auto simp: triable_def list_ex_iff)
qed (simp_all add: triable_def)

lemma annee_filtree_select: "annee_filtree sel df \<Longrightarrow> annee_filtree sel (select_rows m df)"
  unfolding annee_filtree_def
  by (auto simp: columns_select_rows getitem_select_rows cells_select_col
      intro: triable_select_col list_all_select)

lemma texte_filtre_select: "texte_filtre col tous v df \<Longrightarrow> texte_filtre col tous v (select_rows m df)"
  unfolding texte_filtre_def
  by (auto simp: columns_select_rows getitem_select_rows cells_select_col intro: list_all_select)

lemma filtre_annee_result:
  assumes "filtre_annee sel df = Inr df'"
  shows "annee_filtree sel df'" and "df' = df \<or> (\<exists>m. df' = select_rows m df)"
proof -
  show "df' = df \<or> (\<exists>m. df' = select_rows m df)"
    using assms by (auto simp: filtre_annee_def split: if_splits sum.splits)
  show "annee_filtree sel df'"
  proof (cases "''annee'' \<in> set (columns df)")
    case False
    with assms have "df' = df" by (simp add: filtre_annee_def)
    with False show ?thesis by (simp add: annee_filtree_def)
  next
    case True
    with assms obtain c where c: "getitem df ''annee'' = Inr c" "triable c"
      and d: "df' = (if sel \<noteq> [] then select_rows (isin c sel) df else df)"
      by (auto simp: filtre_annee_def split: if_splits sum.splits)
    show ?thesis
    proof (cases "sel = []")
      case True
      with c d show ?thesis by (auto simp: annee_filtree_def)
    next
      case False
      have "list_all (\<lambda>x. list_ex (egal x) sel) (cells (select_col (isin c sel) c))"
        unfolding isin_def cells_select_col list_all_iff
        using select_map_pred[of _ "\<lambda>x. list_ex (egal x) sel" "cells c"] by blast
      with False c d show ?thesis
        by (auto simp: annee_filtree_def getitem_select_rows intro: triable_select_col)
    qed
  qed
qed

lemma filtre_texte_result:
  assumes "filtre_texte col tous v df = Inr df'"
  shows "texte_filtre col tous v df'" and "df' = df \<or> (\<exists>m. df' = select_rows m df)"
proof -
  show "df' = df \<or> (\<exists>m. df' = select_rows m df)"
    using assms by (auto simp: filtre_texte_def split: if_splits sum.splits)
  show "texte_filtre col tous v df'"
  proof (cases "col \<in> set (columns df)")
    case False
    with assms have "df' = df" by (simp add: filtre_texte_def)
    with False show ?thesis by (simp add: texte_filtre_def)
  next
    case True
    with assms obtain c where c: "getitem df col = Inr c"
      and d: "df' = (if v \<noteq> tous then select_rows (eq_text c v) df else df)"
      by (auto simp: filtre_texte_def split: if_splits sum.splits)
    have "list_all (\<lambda>x. x = StrV v) (cells (select_col (eq_text c v) c))"
      unfolding eq_text_def cells_select_col list_all_iff
      using select_map_pred[of _ "\<lambda>x. x = StrV v" "cells c"] by blast
    with c d show ?thesis
      by (auto simp: texte_filtre_def getitem_select_rows)
  qed
qed

lemma filtre_annee_stable:
  assumes "wf_table df" and "annee_filtree sel df"
  shows "filtre_annee sel df = Inr df"
proof (cases "''annee'' \<in> set (columns df)")
  case False
  then show ?thesis by (simp add: filtre_annee_def)
next
  case True
  with assms(2) obtain c where c: "getitem df ''annee'' = Inr c" "triable c"
    "sel \<noteq> [] \<longrightarrow> list_all (\<lambda>x. list_ex (egal x) sel) (cells c)"
    by (auto simp: annee_filtree_def)
  have "sel \<noteq> [] \<Longrightarrow> select_rows (isin c sel) df = df"
    unfolding isin_def using select_rows_stable[OF assms(1) c(1)] c(3) by blast
  with True c show ?thesis by (simp add: filtre_annee_def)
qed

lemma filtre_texte_stable:
  assumes "wf_table df" and "texte_filtre col tous v df"
  shows "filtre_texte col tous v df = Inr df"
proof (cases "col \<in> set (columns df)")
  case False
  then show ?thesis by (simp add: filtre_texte_def)
next
  case True
  with assms(2) obtain c where c: "getitem df col = Inr c"
    "v \<noteq> tous \<longrightarrow> list_all (\<lambda>x. x = StrV v) (cells c)"
    by (auto simp: texte_filtre_def)
  have "v \<noteq> tous \<Longrightarrow> select_rows (eq_text c v) df = df"
    unfolding eq_text_def using select_rows_stable[OF assms(1) c(1)] c(2) by blast
  with True c show ?thesis by (simp add: filtre_texte_def)
qed

subsection \<open>Groups and means\<close>

lemma wf_table_tail: "wf_table (lc # v # va) \<Longrightarrow> wf_table (v # va)"
  unfolding wf_table_iff by (meson list.set_intros(2))

lemma length_rows_of:
  "wf_table df \<Longrightarrow> lc \<in> set df \<Longrightarrow> length (rows_of df) = length (cells (snd lc))"
proof (induction df arbitrary: lc rule: rows_of.induct)
  case 1
  then show ?case by simp
next
  case (2 lc')
  then show ?case by simp
next
  case (3 lc' v va)
  have w: "wf_table (v # va)" using "3.prems"(1) by (rule wf_table_tail)
  have a: "length (rows_of (v # va)) = length (cells (snd v))"
    using "3.IH"[OF w, of v] by simp
  have "lc' \<in> set (lc' # v # va)" "v \<in> set (lc' # v # va)" by simp_all
  with "3.prems" have "longueur (snd lc') = longueur (snd v)" "longueur (snd lc) = longueur (snd v)"
    unfolding wf_table_iff by blast+
  then have b: "length (cells (snd lc')) = length (cells (snd v))"
    "length (cells (snd lc)) = length (cells (snd v))"
    by (simp_all add: longueur_cells)
  show ?case using a b by simp
qed

lemma nombre_cells_F64: "map nombre (cells (F64 xs)) = xs"
  by (induction xs) (auto split: option.splits)

lemma valeurs_nombre: "valeurs vc = Inr vs \<Longrightarrow> vs = map nombre (cells vc)"
proof (cases vc)
  case (F64 xs)
  assume "valeurs vc = Inr vs"
  with F64 show ?thesis using nombre_cells_F64[of xs] by simp
qed auto

lemma rows_paires:
  assumes w: "wf_table df" and k: "getitem df l = Inr kc"
    and v: "getitem df ''valeur_reelle'' = Inr vc" and vs: "valeurs vc = Inr vs"
  shows "map (\<lambda>r. (the (cell_of r l), valeur_ligne r)) (rows_of df) = zip (cells kc) vs"
proof (rule nth_equalityI)
  have lk: "length (rows_of df) = length (cells kc)"
    using length_rows_of[OF w getitem_set[OF k]] by simp
  have lv: "length (rows_of df) = length (cells vc)"
    using length_rows_of[OF w getitem_set[OF v]] by simp
  have e: "vs = map nombre (cells vc)" using vs by (rule valeurs_nombre)
  show "length (map (\<lambda>r. (the (cell_of r l), valeur_ligne r)) (rows_of df)) = length (zip (cells kc) vs)"
    using lk lv by (simp add: e)
  fix i assume "i < length (map (\<lambda>r. (the (cell_of r l), valeur_ligne r)) (rows_of df))"
  then have i: "i < length (rows_of df)" by simp
  have r: "rows_of df ! i = map (\<lambda>lc. (fst lc, cells (snd lc) ! i)) df"
    using rows_of_nth[OF i] by simp
  have "cell_of (rows_of df ! i) l = Some (cells kc ! i)"
    unfolding r by (rule map_of_row[OF getitem_map_of[OF k]])
  moreover have "cell_of (rows_of df ! i) ''valeur_reelle'' = Some (cells vc ! i)"
    unfolding r by (rule map_of_row[OF getitem_map_of[OF v]])
  ultimately show "map (\<lambda>r. (the (cell_of r l), valeur_ligne r)) (rows_of df) ! i = zip (cells kc) vs ! i"
    using i lk lv by (simp add: e valeur_ligne_def)
qed

lemma membres_rows:
  assumes w: "wf_table df" and k: "getitem df l = Inr kc"
    and v: "getitem df ''valeur_reelle'' = Inr vc" and vs: "valeurs vc = Inr vs"
  shows "membres (cells kc) vs x =
           map valeur_ligne (filter (\<lambda>r. cell_of r l = Some x) (rows_of df))"
proof -
  have c: "\<And>r. r \<in> set (rows_of df) \<Longrightarrow> (the (cell_of r l) = x) = (cell_of r l = Some x)"
  proof -
    fix r assume "r \<in> set (rows_of df)"
    with k obtain i where "cell_of r l = Some (cells kc ! i)" by (auto elim: row_cell)
    then show "(the (cell_of r l) = x) = (cell_of r l = Some x)" by simp
  qed
  have "membres (cells kc) vs x =
          map snd (filter (\<lambda>kv. fst kv = x)
            (map (\<lambda>r. (the (cell_of r l), valeur_ligne r)) (rows_of df)))"
    by (simp add: membres_def rows_paires[OF w k v vs])
  also have "\<dots> = map valeur_ligne (filter (\<lambda>r. the (cell_of r l) = x) (rows_of df))"
    by (simp add: filter_map comp_def)
  also have "\<dots> = map valeur_ligne (filter (\<lambda>r. cell_of r l = Some x) (rows_of df))"
  proof -
    have "filter (\<lambda>r. the (cell_of r l) = x) (rows_of df) =
          filter (\<lambda>r. cell_of r l = Some x) (rows_of df)"
      by (rule filter_cong[OF refl]) (rule c)
    then show ?thesis by simp
  qed
  finally show ?thesis .
qed

lemma set_groupes: "set (groupes ks) = set ks - {NaN}"
  by (auto simp: groupes_def)



lemma map_fst_groupby: "map fst (groupby_mean ks vs) = groupes ks"
  by (simp add: groupby_mean_def comp_def)

lemma moyenne_par_run:
  assumes "getitem df col = Inr kc" "getitem df ''valeur_reelle'' = Inr vc" "valeurs vc = Inr vs"
  shows "moyenne_par col df = Inr (groupby_mean (cells kc) vs)"
  using assms by (simp add: moyenne_par_def)

lemma sort_values_props:
  "sorted (map (\<lambda>km. nan_dernier (snd km)) (sort_values rows))"
  "set (sort_values rows) = set rows"
  "length (sort_values rows) = length rows"
  "distinct (map fst rows) \<Longrightarrow> distinct (map fst (sort_values rows))"
proof -
  show "sorted (map (\<lambda>km. nan_dernier (snd km)) (sort_values rows))"
    by (simp add: sort_values_def)
  show s: "set (sort_values rows) = set rows" by (simp add: sort_values_def)
  show "length (sort_values rows) = length rows" by (simp add: sort_values_def)
  assume "distinct (map fst rows)"
  then have "distinct rows" "inj_on fst (set rows)" by (simp_all add: distinct_map)
  then show "distinct (map fst (sort_values rows))"
    by (simp add: distinct_map sort_values_def)
qed





lemma select_map_filter: "select (map P xs) xs = filter P xs"
  by (induction xs) simp_all

lemma groupes_filter: "groupes (filter (\<lambda>k. k \<noteq> NaN) ks) = groupes ks"
  by (simp add: groupes_def)

lemma select_zip_keys:
  "select (map P ks) (zip ks vs) = filter (\<lambda>kv. P (fst kv)) (zip ks vs)"
  by (rule select_aligned) simp_all

lemma membres_dropna:
  assumes "k \<noteq> NaN"
  shows "membres (select (map (\<lambda>x. x \<noteq> NaN) ks) ks) (select (map (\<lambda>x. x \<noteq> NaN) ks) vs) k =
           membres ks vs k"
proof -
  have "filter (\<lambda>kv. fst kv = k) (filter (\<lambda>kv. fst kv \<noteq> NaN) (zip ks vs)) =
        filter (\<lambda>kv. fst kv = k) (zip ks vs)"
    using assms by (auto intro: filter_cong)
  then show ?thesis
    by (simp add: membres_def select_zip[symmetric] select_zip_keys)
qed

lemma groupby_mean_dropna:
  "groupby_mean (select (map (\<lambda>x. x \<noteq> NaN) ks) ks) (select (map (\<lambda>x. x \<noteq> NaN) ks) vs) =
     groupby_mean ks vs"
proof -
  have "\<And>k. k \<in> set (groupes ks) \<Longrightarrow> k \<noteq> NaN" by (simp add: set_groupes)
  then show ?thesis
    unfolding groupby_mean_def select_map_filter groupes_filter
    by (intro map_cong refl) (simp add: membres_dropna select_map_filter[symmetric])
qed

lemma valeurs_select_col: "valeurs vc = Inr vs \<Longrightarrow> valeurs (select_col m vc) = Inr (select m vs)"
  by (cases vc) (auto simp: select_map)

lemma moyenne_par_props:
  assumes k: "getitem df col = Inr kc" and v: "getitem df ''valeur_reelle'' = Inr vc"
    and vs: "valeurs vc = Inr vs"
  shows "moyenne_par col df = Inr (groupby_mean (cells kc) vs)"
    and "NaN \<notin> fst ` set (groupby_mean (cells kc) vs)"
    and "moyenne_par col (select_rows (notna kc) df) = Inr (groupby_mean (cells kc) vs)"
    and "wf_table df \<Longrightarrow> km \<in> set (groupby_mean (cells kc) vs) \<Longrightarrow>
           snd km = mean (map valeur_ligne (filter (\<lambda>r. cell_of r col = Some (fst km)) (rows_of df)))"
proof -
  show "moyenne_par col df = Inr (groupby_mean (cells kc) vs)"
    using k v vs by (rule moyenne_par_run)
  have "fst ` set (groupby_mean (cells kc) vs) = set (map fst (groupby_mean (cells kc) vs))" by simp
  then show "NaN \<notin> fst ` set (groupby_mean (cells kc) vs)"
    by (simp only: map_fst_groupby set_groupes) simp
  let ?m = "notna kc"
  have "moyenne_par col (select_rows ?m df) =
          Inr (groupby_mean (cells (select_col ?m kc)) (select ?m vs))"
    using moyenne_par_run[of "select_rows ?m df" col "select_col ?m kc" "select_col ?m vc" "select ?m vs"]
    by (simp add: getitem_select_rows k v valeurs_select_col[OF vs])
  then show "moyenne_par col (select_rows (notna kc) df) = Inr (groupby_mean (cells kc) vs)"
    by (simp add: cells_select_col notna_cells groupby_mean_dropna)
  show "wf_table df \<Longrightarrow> km \<in> set (groupby_mean (cells kc) vs) \<Longrightarrow>
           snd km = mean (map valeur_ligne (filter (\<lambda>r. cell_of r col = Some (fst km)) (rows_of df)))"
    by (auto simp: groupby_mean_def membres_rows[OF _ k v vs])
qed

subsection \<open>Normalised tables\<close>

lemma wf_table_labels: "wf_table (map (\<lambda>lc. (g lc, snd lc)) df) = wf_table df"
proof -
  have "snd ` set (map (\<lambda>lc. (g lc, snd lc)) df) = snd ` set df" by force
  moreover have "\<And>t. wf_table t \<longleftrightarrow> (\<forall>c \<in> snd ` set t. \<forall>c' \<in> snd ` set t. longueur c = longueur c')"
    unfolding wf_table_iff by blast
  ultimately show ?thesis by presburger
qed

lemma wf_setitem:
  assumes "wf_table df" and "\<forall>lc \<in> set df. longueur (snd lc) = longueur s"
  shows "wf_table (setitem df l s)"
proof -
  have "\<forall>x \<in> set (setitem df l s). longueur (snd x) = longueur s"
    using assms(2) by (auto simp: setitem_def)
  then have "\<forall>x \<in> set (setitem df l s). \<forall>y \<in> set (setitem df l s).
      longueur (snd x) = longueur (snd y)" by simp
  then show ?thesis by (rule wf_table_iff[THEN iffD2])
qed

lemma longueur_convertir_colonne: "longueur (convertir_colonne parse frepr c) = longueur c"
  by (cases c) (simp_all add: convertir_colonne_def to_numeric_def astype_str_def)

lemma wf_longueur:
  "wf_table df \<Longrightarrow> getitem df l = Inr c \<Longrightarrow> lc \<in> set df \<Longrightarrow> longueur (snd lc) = longueur c"
proof -
  assume w: "wf_table df" and g: "getitem df l = Inr c" and m: "lc \<in> set df"
  from g have "(l, c) \<in> set df" by (rule getitem_set)
  with w m show ?thesis unfolding wf_table_iff by fastforce
qed

lemma wf_convertir:
  "wf_table df \<Longrightarrow> convertir parse frepr cols df = (df', None) \<Longrightarrow> wf_table df'"
proof (induction cols arbitrary: df)
  case Nil
  then show ?case by (simp add: convertir.simps)
next
  case (Cons col cols)
  show ?case
  proof (cases "col \<in> set (columns df)")
    case True
    with convertir_Cons_ok[OF Cons.prems(2)] obtain c where c: "getitem df col = Inr c"
      and r: "convertir parse frepr cols (setitem df col (convertir_colonne parse frepr c)) = (df', None)"
      by blast
    have "\<forall>lc \<in> set df. longueur (snd lc) = longueur (convertir_colonne parse frepr c)"
      using wf_longueur[OF Cons.prems(1) c] by (simp add: longueur_convertir_colonne)
    with Cons.prems(1) have "wf_table (setitem df col (convertir_colonne parse frepr c))"
      by (rule wf_setitem)
    then show ?thesis using r by (rule Cons.IH)
  next
    case False
    with convertir_Cons_ok[OF Cons.prems(2)] have "convertir parse frepr cols df = (df', None)"
      by blast
    with Cons.prems(1) show ?thesis by (rule Cons.IH)
  qed
qed

lemma longueur_periode_label:
  "longueur a = longueur t \<Longrightarrow> longueur (calc_periode_label frepr a t) = longueur a"
  by (simp add: calc_periode_label_def astype_str_cells longueur_cells)

lemma longueur_sort_key:
  assumes "calc_sort_key a (map_trimestre t) = Inr k" and "longueur a = longueur t"
  shows "longueur k = longueur a"
proof -
  have "length (cells k) = length (zip (cells a) (cells t))"
    by (simp add: cells_sort_key[OF assms(1)])
  with assms(2) show ?thesis by (simp add: longueur_cells)
qed

lemma wf_deriver:
  assumes "wf_table df" and "deriver frepr df = (df', None)"
  shows "wf_table df'"
proof -
  from deriver_ok[OF assms(2)] show ?thesis
  proof
    assume "''annee'' \<in> set (columns df) \<and> ''trimestre'' \<in> set (columns df) \<and>
      (\<exists>a t k. getitem df ''annee'' = Inr a \<and> getitem df ''trimestre'' = Inr t \<and>
         calc_sort_key a (map_trimestre t) = Inr k \<and>
         df' = setitem (setitem df ''periode_label'' (calc_periode_label frepr a t)) ''sort_key'' k)"
    then obtain a t k where a: "getitem df ''annee'' = Inr a" and t: "getitem df ''trimestre'' = Inr t"
      and k: "calc_sort_key a (map_trimestre t) = Inr k"
      and d: "df' = setitem (setitem df ''periode_label'' (calc_periode_label frepr a t)) ''sort_key'' k"
      by blast
    let ?pl = "calc_periode_label frepr a t"
    let ?df1 = "setitem df ''periode_label'' ?pl"
    have at: "longueur a = longueur t"
      using wf_longueur[OF assms(1) t getitem_set[OF a]] by simp
    have la: "\<forall>lc \<in> set df. longueur (snd lc) = longueur a"
      using wf_longueur[OF assms(1) a] by blast
    have "\<forall>lc \<in> set df. longueur (snd lc) = longueur ?pl"
      using la by (simp add: longueur_periode_label[OF at])
    with assms(1) have w1: "wf_table ?df1" by (rule wf_setitem)
    have "\<forall>lc \<in> set ?df1. longueur (snd lc) = longueur a"
      using la by (auto simp: setitem_def longueur_periode_label[OF at])
    then have "\<forall>lc \<in> set ?df1. longueur (snd lc) = longueur k"
      by (simp add: longueur_sort_key[OF k at])
    with w1 have "wf_table (setitem ?df1 ''sort_key'' k)" by (rule wf_setitem)
    then show ?thesis by (simp add: d)
  next
    assume "\<not> (''annee'' \<in> set (columns df) \<and> ''trimestre'' \<in> set (columns df)) \<and> df' = df"
    with assms(1) show ?thesis by simp
  qed
qed

lemma wf_nettoyer_corps:
  assumes "wf_table df" and "nettoyer_corps parse frepr df = (df', None)"
  shows "wf_table df'"
proof -
  from assms(2) obtain df3 df4 where
    s3: "convertir parse frepr cols_numeriques (rename (standardiser_colonnes df)) = (df3, None)"
    and s4: "deriver frepr df3 = (df4, None)" and s5: "supprimer_vides df4 = (df', None)"
    by (rule nettoyer_corps_ok)
  have "wf_table (standardiser_colonnes df)"
    using assms(1) unfolding standardiser_colonnes_def by (simp only: wf_table_labels)
  then have "wf_table (rename (standardiser_colonnes df))"
    unfolding rename_def by (simp only: wf_table_labels)
  then have "wf_table df3" using s3 by (rule wf_convertir)
  then have "wf_table df4" using s4 by (rule wf_deriver)
  with supprimer_vides_select[OF s5] show ?thesis by (auto intro: wf_select_rows)
qed

lemma valeurs_convertir_colonne: "\<exists>vs. valeurs (convertir_colonne parse frepr c) = Inr vs"
  by (cases c) (simp_all add: convertir_colonne_def to_numeric_def)

lemma nettoyer_normalisee:
  assumes "wf_table (st p)" and "nettoyer_donnees parse frepr p st = (st', Inr q)"
    and "''valeur_reelle'' \<in> set (columns (st' q))"
  shows "normalisee (st' q)"
proof -
  have q: "q = p" and run: "nettoyer_corps parse frepr (st p) = (st' p, None)"
    using nettoyer_donnees_ok[OF assms(2)] by auto
  have w: "wf_table (st' p)" using assms(1) run by (rule wf_nettoyer_corps)
  from run assms(3) q obtain c c0 where
    g: "getitem (st' p) ''valeur_reelle'' = Inr (select_col (notna c) c)"
    and c: "c = convertir_colonne parse frepr c0"
    by (auto elim: nettoyer_valeur_reelle)
  from valeurs_convertir_colonne[of parse frepr c0] c obtain vs where "valeurs c = Inr vs" by auto
  then have "valeurs (select_col (notna c) c) = Inr (select (notna c) vs)"
    by (rule valeurs_select_col)
  with w g select_notna[of c] show ?thesis unfolding normalisee_def q by blast
qed

lemma normalisee_select_rows: "normalisee df \<Longrightarrow> normalisee (select_rows m df)"
proof -
  assume "normalisee df"
  then obtain vc vs where w: "wf_table df" and g: "getitem df ''valeur_reelle'' = Inr vc"
    and v: "valeurs vc = Inr vs" and n: "NaN \<notin> set (cells vc)"
    unfolding normalisee_def by blast
  have "NaN \<notin> set (cells (select_col m vc))"
    using n set_select[of m "cells vc"] by (auto simp: cells_select_col)
  moreover have "getitem (select_rows m df) ''valeur_reelle'' = Inr (select_col m vc)"
    by (simp add: getitem_select_rows g)
  ultimately show ?thesis
    unfolding normalisee_def using wf_select_rows[OF w] valeurs_select_col[OF v] by blast
qed

lemma filtrer_normalisee:
  assumes "normalisee df" and "filtrer cr df = Inr df'"
  shows "normalisee df'"
proof -
  from assms(2) obtain df1 df2 where
    f1: "filtre_annee (annees_sel cr) df = Inr df1"
    and f2: "filtre_texte ''mode'' ''Tous'' (mode_sel cr) df1 = Inr df2"
    and f3: "filtre_texte ''thematique'' ''Toutes'' (theme_sel cr) df2 = Inr df'"
    by (auto simp: filtrer_def filtre_mode_def filtre_thematique_def split: sum.splits)
  have "normalisee df1" using assms(1) filtre_annee_result(2)[OF f1]
    by (auto intro: normalisee_select_rows)
  then have "normalisee df2" using filtre_texte_result(2)[OF f2]
    by (auto intro: normalisee_select_rows)
  then show ?thesis using filtre_texte_result(2)[OF f3]
    by (auto intro: normalisee_select_rows)
qed





section \<open>The measured value of a normalised row\<close>

text \<open>
  C1, as stated, fails on a table that has no \<^verbatim>\<open>valeur_reelle\<close> column: line 90 guards
  the drop with \<^verbatim>\<open>'valeur_reelle' in df.columns\<close>, the table is returned with all its
  rows, and none of them has a measured value.
\<close>

theorem valeur_reelle_absente_counterexample:
  "snd (nettoyer_donnees lire_decimal repr_entier 0 (\<lambda>_. ex_sans_valeur)) = Inr 0 \<and>
   rows_of (fst (nettoyer_donnees lire_decimal repr_entier 0 (\<lambda>_. ex_sans_valeur)) 0) =
     [[(''ligne'', StrV ''A'')]] \<and>
   cell_of [(''ligne'', StrV ''A'')] ''valeur_reelle'' = None"
  by code_simp

text \<open>
  C1, amended: when the table that \<^verbatim>\<open>nettoyer_donnees\<close> returns has a \<^verbatim>\<open>valeur_reelle\<close>
  column, every row of it has a value there that is not missing: the rows whose value
  is missing after the coercion are dropped.
\<close>

theorem valeur_reelle_presente:
  assumes "nettoyer_donnees parse frepr p st = (st', Inr q)"
    and "''valeur_reelle'' \<in> set (columns (st' q))"
  shows "\<forall>r \<in> set (rows_of (st' q)). \<exists>v. cell_of r ''valeur_reelle'' = Some v \<and> v \<noteq> NaN"
proof
  fix r assume r: "r \<in> set (rows_of (st' q))"
  have q: "q = p" and run: "nettoyer_corps parse frepr (st p) = (st' p, None)"
    using nettoyer_donnees_ok[OF assms(1)] by auto
  from run assms(2) q obtain c where g: "getitem (st' p) ''valeur_reelle'' = Inr (select_col (notna c) c)"
    by (auto elim: nettoyer_valeur_reelle)
  from r q g obtain i where i: "i < length (cells (select_col (notna c) c))"
    "cell_of r ''valeur_reelle'' = Some (cells (select_col (notna c) c) ! i)"
    by (auto elim: row_cell)
  have "cells (select_col (notna c) c) ! i \<noteq> NaN"
    using select_notna[of c] i(1) by (metis nth_mem)
  with i(2) show "\<exists>v. cell_of r ''valeur_reelle'' = Some v \<and> v \<noteq> NaN" by simp
qed

theorem valeur_reelle_presente_witness:
  "snd (nettoyer_donnees lire_decimal repr_entier 0 (\<lambda>_. ex_mesures)) = Inr 0 \<and>
   ''valeur_reelle'' \<in> set (columns (fst (nettoyer_donnees lire_decimal repr_entier 0 (\<lambda>_. ex_mesures)) 0)) \<and>
   rows_of (fst (nettoyer_donnees lire_decimal repr_entier 0 (\<lambda>_. ex_mesures)) 0) =
     [[(''valeur_reelle'', FloatV 95), (''ligne'', StrV ''A'')]] \<and>
   (\<exists>v. cell_of [(''valeur_reelle'', FloatV 95), (''ligne'', StrV ''A'')] ''valeur_reelle'' = Some v \<and>
        v \<noteq> NaN)"
proof -
  let ?run = "nettoyer_donnees lire_decimal repr_entier 0 (\<lambda>_. ex_mesures)"
  have h1: "snd ?run = Inr 0" by code_simp
  have h2: "''valeur_reelle'' \<in> set (columns (fst ?run 0))" by code_simp
  have h3: "rows_of (fst ?run 0) = [[(''valeur_reelle'', FloatV 95), (''ligne'', StrV ''A'')]]"
    by code_simp
  have "?run = (fst ?run, Inr 0)" using h1 by (metis prod.collapse)
  from valeur_reelle_presente[OF this h2] h3
  have "\<exists>v. cell_of [(''valeur_reelle'', FloatV 95), (''ligne'', StrV ''A'')] ''valeur_reelle'' = Some v \<and>
        v \<noteq> NaN" by simp
  with h1 h2 h3 show ?thesis by blast
qed

section \<open>The sort key\<close>

text \<open>
  C2, as stated, fails for years of any size: on an int64 year column line 87 multiplies
  and adds in int64, which wraps around. The year 922337203685477581 gets a negative
  key, below the key of the year 1.
\<close>

theorem sort_key_debordement_counterexample:
  "snd (nettoyer_donnees lire_decimal repr_entier 0 (\<lambda>_. ex_debordement)) = Inr 0 \<and>
   rows_of (fst (nettoyer_donnees lire_decimal repr_entier 0 (\<lambda>_. ex_debordement)) 0) =
     [[(''annee'', IntV 1), (''trimestre'', StrV ''T1''), (''valeur_reelle'', FloatV 1),
       (''periode_label'', StrV ''1 - T1''), (''sort_key'', IntV 11)],
      [(''annee'', IntV 922337203685477581), (''trimestre'', StrV ''T1''), (''valeur_reelle'', FloatV 1),
       (''periode_label'', StrV ''922337203685477581 - T1''),
       (''sort_key'', IntV (- 9223372036854775805))]] \<and>
   (1 :: int) < 922337203685477581 \<and> \<not> ((11 :: int) < - 9223372036854775805)"
  by code_simp

text \<open>
  C2, amended. Take two rows of the table that \<^verbatim>\<open>nettoyer_donnees\<close> returns, whose years
  are integers \<open>y\<close> with \<open>10 * \<bar>y\<bar> + 4 \<le> 2 ^ 53\<close>; in that range neither int64 nor
  float64 arithmetic loses anything, and the rational numbers of the model are the
  numbers the program computes. The sort key of each row is the number
  \<open>annee * 10 + quarter index\<close>; the row of the earlier year has the strictly smaller key,
  and in one year the keys are ordered as the quarter indices. The quarter index is 1,
  2, 3, 4 for \<^verbatim>\<open>T1\<close>, \<^verbatim>\<open>T2\<close>, \<^verbatim>\<open>T3\<close>, \<^verbatim>\<open>T4\<close> and 0 for any other cell, missing ones
  included: in one year \<^verbatim>\<open>T1\<close> < \<^verbatim>\<open>T2\<close> < \<^verbatim>\<open>T3\<close> < \<^verbatim>\<open>T4\<close>, and an unknown quarter
  comes before them.
\<close>

theorem sort_key_chronologique:
  assumes run: "nettoyer_donnees parse frepr p st = (st', Inr q)"
    and ca: "''annee'' \<in> set (columns (st' q))" and ct: "''trimestre'' \<in> set (columns (st' q))"
    and r1: "r1 \<in> set (rows_of (st' q))" and r2: "r2 \<in> set (rows_of (st' q))"
    and a1: "cell_of r1 ''annee'' = Some a1" "annee_entiere a1 = Some y1" "10 * \<bar>y1\<bar> + 4 \<le> 2 ^ 53"
    and a2: "cell_of r2 ''annee'' = Some a2" "annee_entiere a2 = Some y2" "10 * \<bar>y2\<bar> + 4 \<le> 2 ^ 53"
  shows "(\<exists>t1 t2 c1 c2.
            cell_of r1 ''trimestre'' = Some t1 \<and> cell_of r2 ''trimestre'' = Some t2 \<and>
            cell_of r1 ''sort_key'' = Some c1 \<and> cell_of r2 ''sort_key'' = Some c2 \<and>
            nombre c1 = Some (of_int (y1 * 10 + indice_trimestre t1)) \<and>
            nombre c2 = Some (of_int (y2 * 10 + indice_trimestre t2)) \<and>
            (y1 < y2 \<longrightarrow> the (nombre c1) < the (nombre c2)) \<and>
            (y1 = y2 \<longrightarrow>
               (the (nombre c1) < the (nombre c2) \<longleftrightarrow> indice_trimestre t1 < indice_trimestre t2))) \<and>
         (\<forall>c. indice_trimestre c =
            (if c = StrV ''T1'' then 1 else if c = StrV ''T2'' then 2
             else if c = StrV ''T3'' then 3 else if c = StrV ''T4'' then 4 else 0))"
proof -
  have q: "q = p" and corps: "nettoyer_corps parse frepr (st p) = (st' p, None)"
    using nettoyer_donnees_ok[OF run] by auto
  from corps ca ct r1 q obtain x1 t1 e1 where
    l1: "cell_of r1 ''annee'' = Some x1" "cell_of r1 ''trimestre'' = Some t1"
        "cell_of r1 ''sort_key'' = Some (cle_ligne e1 x1 (indice_trimestre t1))"
    by (auto elim: nettoyer_ligne)
  from corps ca ct r2 q obtain x2 t2 e2 where
    l2: "cell_of r2 ''annee'' = Some x2" "cell_of r2 ''trimestre'' = Some t2"
        "cell_of r2 ''sort_key'' = Some (cle_ligne e2 x2 (indice_trimestre t2))"
    by (auto elim: nettoyer_ligne)
  have x: "x1 = a1" "x2 = a2" using l1(1) l2(1) a1(1) a2(1) by simp_all
  let ?c1 = "cle_ligne e1 a1 (indice_trimestre t1)" and ?c2 = "cle_ligne e2 a2 (indice_trimestre t2)"
  have i1: "0 \<le> indice_trimestre t1" "indice_trimestre t1 \<le> 4"
    and i2: "0 \<le> indice_trimestre t2" "indice_trimestre t2 \<le> 4"
    using indice_trimestre_range by simp_all
  have n1: "nombre ?c1 = Some (of_int (y1 * 10 + indice_trimestre t1))"
    using a1(2,3) i1 by (rule nombre_cle_ligne)
  have n2: "nombre ?c2 = Some (of_int (y2 * 10 + indice_trimestre t2))"
    using a2(2,3) i2 by (rule nombre_cle_ligne)
  have o1: "y1 < y2 \<longrightarrow> the (nombre ?c1) < the (nombre ?c2)"
  proof
    assume "y1 < y2"
    with i1 i2 have "y1 * 10 + indice_trimestre t1 < y2 * 10 + indice_trimestre t2" by simp
    then show "the (nombre ?c1) < the (nombre ?c2)" by (simp only: n1 n2 option.sel of_int_less_iff)
  qed
  have o2: "y1 = y2 \<longrightarrow>
      (the (nombre ?c1) < the (nombre ?c2) \<longleftrightarrow> indice_trimestre t1 < indice_trimestre t2)"
  proof
    assume "y1 = y2"
    then have "(y1 * 10 + indice_trimestre t1 < y2 * 10 + indice_trimestre t2) =
               (indice_trimestre t1 < indice_trimestre t2)" by simp
    then show "the (nombre ?c1) < the (nombre ?c2) \<longleftrightarrow> indice_trimestre t1 < indice_trimestre t2"
      by (simp only: n1 n2 option.sel of_int_less_iff)
  qed
  have "\<exists>t1 t2 c1 c2.
            cell_of r1 ''trimestre'' = Some t1 \<and> cell_of r2 ''trimestre'' = Some t2 \<and>
            cell_of r1 ''sort_key'' = Some c1 \<and> cell_of r2 ''sort_key'' = Some c2 \<and>
            nombre c1 = Some (of_int (y1 * 10 + indice_trimestre t1)) \<and>
            nombre c2 = Some (of_int (y2 * 10 + indice_trimestre t2)) \<and>
            (y1 < y2 \<longrightarrow> the (nombre c1) < the (nombre c2)) \<and>
            (y1 = y2 \<longrightarrow>
               (the (nombre c1) < the (nombre c2) \<longleftrightarrow> indice_trimestre t1 < indice_trimestre t2))"
    using l1(2,3) l2(2,3) n1 n2 o1 o2 unfolding x by blast
  then show ?thesis using indice_trimestre_table by blast
qed

theorem sort_key_chronologique_witness:
  "snd (nettoyer_donnees lire_decimal repr_entier 0 (\<lambda>_. ex_trimestres)) = Inr 0 \<and>
   ''annee'' \<in> set (columns (fst (nettoyer_donnees lire_decimal repr_entier 0 (\<lambda>_. ex_trimestres)) 0)) \<and>
   ''trimestre'' \<in> set (columns (fst (nettoyer_donnees lire_decimal repr_entier 0 (\<lambda>_. ex_trimestres)) 0)) \<and>
   rows_of (fst (nettoyer_donnees lire_decimal repr_entier 0 (\<lambda>_. ex_trimestres)) 0) =
     [ligne_2022_T4, ligne_2023_nan] \<and>
   cell_of ligne_2022_T4 ''annee'' = Some (IntV 2022) \<and> annee_entiere (IntV 2022) = Some 2022 \<and>
   10 * \<bar>2022 :: int\<bar> + 4 \<le> 2 ^ 53 \<and>
   cell_of ligne_2023_nan ''annee'' = Some (IntV 2023) \<and> annee_entiere (IntV 2023) = Some 2023 \<and>
   10 * \<bar>2023 :: int\<bar> + 4 \<le> 2 ^ 53 \<and>
   (\<exists>c1 c2. cell_of ligne_2022_T4 ''sort_key'' = Some c1 \<and> cell_of ligne_2023_nan ''sort_key'' = Some c2 \<and>
      the (nombre c1) < the (nombre c2))"
proof -
  let ?run = "nettoyer_donnees lire_decimal repr_entier 0 (\<lambda>_. ex_trimestres)"
  have h1: "snd ?run = Inr 0" by code_simp
  have h2: "''annee'' \<in> set (columns (fst ?run 0))" by code_simp
  have h3: "''trimestre'' \<in> set (columns (fst ?run 0))" by code_simp
  have h4: "rows_of (fst ?run 0) = [ligne_2022_T4, ligne_2023_nan]" by code_simp
  have r1: "ligne_2022_T4 \<in> set (rows_of (fst ?run 0))"
    and r2: "ligne_2023_nan \<in> set (rows_of (fst ?run 0))"
    unfolding h4 by simp_all
  have a1: "cell_of ligne_2022_T4 ''annee'' = Some (IntV 2022)" by (simp add: cell_of_def)
  have a2: "cell_of ligne_2023_nan ''annee'' = Some (IntV 2023)" by (simp add: cell_of_def)
  have e1: "annee_entiere (IntV 2022) = Some 2022" and e2: "annee_entiere (IntV 2023) = Some 2023"
    by simp_all
  have b1: "10 * \<bar>2022 :: int\<bar> + 4 \<le> 2 ^ 53" and b2: "10 * \<bar>2023 :: int\<bar> + 4 \<le> 2 ^ 53"
    by simp_all
  have run: "?run = (fst ?run, Inr 0)" using h1 by (metis prod.collapse)
  from sort_key_chronologique[OF run h2 h3 r1 r2 a1 e1 b1 a2 e2 b2]
  have "\<exists>c1 c2. cell_of ligne_2022_T4 ''sort_key'' = Some c1 \<and>
          cell_of ligne_2023_nan ''sort_key'' = Some c2 \<and> the (nombre c1) < the (nombre c2)"
    by auto
  with h1 h2 h3 h4 a1 a2 e1 e2 b1 b2 show ?thesis by blast
qed

section \<open>The effect of the normalisation on the caller's table\<close>

text \<open>
  C3, as stated, fails: line 53 assigns to \<^verbatim>\<open>df.columns\<close>, lines 67 and 91 are called with
  \<^verbatim>\<open>inplace=True\<close>, lines 75-87 assign columns of \<^verbatim>\<open>df\<close>, and line 93 returns \<^verbatim>\<open>df\<close>.
  On the example the reference returned is the argument, and the table of the caller has
  lost a row and changed a label and a dtype.
\<close>

theorem nettoyer_pur_counterexample:
  "snd (nettoyer_donnees lire_decimal repr_entier 0 (\<lambda>_. ex_mesures)) = Inr 0 \<and>
   fst (nettoyer_donnees lire_decimal repr_entier 0 (\<lambda>_. ex_mesures)) 0 =
     [(''valeur_reelle'', F64 [Some 95]), (''ligne'', Obj [Some ''A''])] \<and>
   fst (nettoyer_donnees lire_decimal repr_entier 0 (\<lambda>_. ex_mesures)) 0 \<noteq> ex_mesures"
  by code_simp

text \<open>
  C3, amended: \<^verbatim>\<open>nettoyer_donnees\<close> normalises the table of its caller in place. The
  table it returns is the object it was given, which after the call holds the normalised
  table, a function of what it held before; no other table of the store changes. When a
  step raises, the object is left in the state the steps before had reached.
\<close>

theorem nettoyer_en_place:
  assumes "nettoyer_donnees parse frepr p st = (st', res)"
  shows "(\<forall>q. q \<noteq> p \<longrightarrow> st' q = st q) \<and>
         st' p = fst (nettoyer_corps parse frepr (st p)) \<and>
         (case res of
            Inr q \<Rightarrow> q = p \<and> snd (nettoyer_corps parse frepr (st p)) = None
          | Inl e \<Rightarrow> snd (nettoyer_corps parse frepr (st p)) = Some e)"
proof (cases "nettoyer_corps parse frepr (st p)")
  case (Pair t eo)
  show ?thesis
  proof (cases eo)
    case None
    with Pair assms have "st' = st(p := t)" "res = Inr p"
      by (simp_all add: nettoyer_donnees_def)
    with Pair None show ?thesis by simp
  next
    case (Some e)
    with Pair assms have "st' = st(p := t)" "res = Inl e"
      by (simp_all add: nettoyer_donnees_def)
    with Pair Some show ?thesis by simp
  qed
qed

theorem nettoyer_en_place_witness:
  "fst (nettoyer_donnees lire_decimal repr_entier 0 (\<lambda>_. ex_sans_valeur)) 1 = ex_sans_valeur \<and>
   fst (nettoyer_donnees lire_decimal repr_entier 0 (\<lambda>_. ex_sans_valeur)) 0 =
     [(''ligne'', Obj [Some ''A''])] \<and>
   snd (nettoyer_donnees lire_decimal repr_entier 0 (\<lambda>_. ex_sans_valeur)) = Inr 0"
proof -
  let ?run = "nettoyer_donnees lire_decimal repr_entier 0 (\<lambda>_. ex_sans_valeur)"
  have h: "?run = (fst ?run, snd ?run)" by simp
  have e: "fst (nettoyer_corps lire_decimal repr_entier ex_sans_valeur) = [(''ligne'', Obj [Some ''A''])]"
    by code_simp
  have r: "snd ?run = Inr 0" by code_simp
  from nettoyer_en_place[OF h] have "fst ?run 1 = ex_sans_valeur"
    and "fst ?run 0 = fst (nettoyer_corps lire_decimal repr_entier ex_sans_valeur)"
    by simp_all
  with e r show ?thesis by simp
qed

section \<open>Numeric coercion\<close>



section \<open>The ranking of the lines\<close>



section \<open>Views without their column\<close>

text \<open>
  C6 on the code. The view of the periods and the view of the lines tell the user when
  their columns are absent (lines 204 and 228). The view of the thematiques does not:
  line 231 has no \<^verbatim>\<open>else\<close> branch, so that a table without \<^verbatim>\<open>thematique\<close> column gets
  the two other views and nothing in place of the third, neither title nor notice. And
  the view of the periods does not test \<^verbatim>\<open>valeur_reelle\<close>, which the two others test: a
  table with \<^verbatim>\<open>annee\<close> and \<^verbatim>\<open>trimestre\<close> and no measured column is normalised without
  error, and line 181 then raises \<open>KeyError\<close>, which ends the run before any view is
  shown.
\<close>

theorem vue_thematique_sans_avis:
  "visualisations ex_sans_thematique =
     ([Subheader Evolution_dans_le_temps,
       LineChart [((IntV 20231, StrV ''2023 - T1''), [(''valeur_reelle'', Some 95)])],
       Subheader Lignes_a_surveiller,
       BarLignes [(StrV ''A'', Some 95)]], None) \<and>
   graphique_thematiques ex_sans_thematique = ([], None) \<and>
   visualisations ex_sans_ligne =
     ([Subheader Evolution_dans_le_temps, Info Donnees_temporelles_insuffisantes,
       Subheader Lignes_a_surveiller, Info Information_sur_les_lignes_manquante,
       Subheader Performance_par_thematique, BarThematiques [(StrV ''R'', Some 95)]], None) \<and>
   snd (nettoyer_donnees lire_decimal repr_entier 0 (\<lambda>_. ex_sans_mesure)) = Inr 0 \<and>
   visualisations (fst (nettoyer_donnees lire_decimal repr_entier 0 (\<lambda>_. ex_sans_mesure)) 0) =
     ([Subheader Evolution_dans_le_temps], Some (KeyError ''valeur_reelle''))"
  by code_simp

section \<open>The label of the period\<close>




section \<open>Filtering twice\<close>

text \<open>
  C8. On a table whose columns have one length, as those of a DataFrame have, filtering
  with some criteria the table that filtering with these criteria returned gives that
  table again: the three filters of lines 122-142 keep rows, and every row they kept
  passes them.
\<close>

theorem filtrer_idempotent:
  assumes wf: "wf_table df" and run: "filtrer cr df = Inr df'"
  shows "filtrer cr df' = Inr df'"
proof -
  from run obtain df1 df2 where
    f1: "filtre_annee (annees_sel cr) df = Inr df1"
    and f2: "filtre_texte ''mode'' ''Tous'' (mode_sel cr) df1 = Inr df2"
    and f3: "filtre_texte ''thematique'' ''Toutes'' (theme_sel cr) df2 = Inr df'"
    by (auto simp: filtrer_def filtre_mode_def filtre_thematique_def split: sum.splits)
  note r1 = filtre_annee_result[OF f1] and r2 = filtre_texte_result[OF f2]
    and r3 = filtre_texte_result[OF f3]
  have w1: "wf_table df1" using wf r1(2) by (auto intro: wf_select_rows)
  have w2: "wf_table df2" using w1 r2(2) by (auto intro: wf_select_rows)
  have w3: "wf_table df'" using w2 r3(2) by (auto intro: wf_select_rows)
  have a2: "annee_filtree (annees_sel cr) df2"
    using r1(1) r2(2) by (auto intro: annee_filtree_select)
  have a3: "annee_filtree (annees_sel cr) df'"
    using a2 r3(2) by (auto intro: annee_filtree_select)
  have m3: "texte_filtre ''mode'' ''Tous'' (mode_sel cr) df'"
    using r2(1) r3(2) by (auto intro: texte_filtre_select)
  have "filtre_annee (annees_sel cr) df' = Inr df'" using w3 a3 by (rule filtre_annee_stable)
  moreover have "filtre_texte ''mode'' ''Tous'' (mode_sel cr) df' = Inr df'"
    using w3 m3 by (rule filtre_texte_stable)
  moreover have "filtre_texte ''thematique'' ''Toutes'' (theme_sel cr) df' = Inr df'"
    using w3 r3(1) by (rule filtre_texte_stable)
  ultimately show ?thesis by (simp add: filtrer_def filtre_mode_def filtre_thematique_def)
qed

theorem filtrer_idempotent_witness:
  "wf_table ex_filtres \<and>
   filtrer ex_criteres ex_filtres =
     Inr [(''annee'', I64 [2023]), (''mode'', Obj [Some ''Bus'']), (''thematique'', Obj [Some ''P''])] \<and>
   filtrer ex_criteres
     [(''annee'', I64 [2023]), (''mode'', Obj [Some ''Bus'']), (''thematique'', Obj [Some ''P''])] =
     Inr [(''annee'', I64 [2023]), (''mode'', Obj [Some ''Bus'']), (''thematique'', Obj [Some ''P''])]"
proof -
  have w: "wf_table ex_filtres" by code_simp
  have r: "filtrer ex_criteres ex_filtres =
     Inr [(''annee'', I64 [2023]), (''mode'', Obj [Some ''Bus'']), (''thematique'', Obj [Some ''P''])]"
    by code_simp
  from filtrer_idempotent[OF w r] w r show ?thesis by simp
qed

section \<open>Filtering on one value\<close>

text \<open>
  C9. When the table has one \<^verbatim>\<open>mode\<close> column, the filter of lines 130-135 returns, for a
  selection \<open>v\<close> other than \<^verbatim>\<open>Tous\<close>, exactly the rows whose mode is the text \<open>v\<close>, in
  their order: a row whose mode is missing is not among them. For \<^verbatim>\<open>Tous\<close> it returns
  every row, those with a missing mode included. The same holds of the \<^verbatim>\<open>thematique\<close>
  filter of lines 138-142 and its sentinel \<^verbatim>\<open>Toutes\<close>.
\<close>

theorem filtre_valeur_exacte:
  "(\<forall>c. getitem df ''mode'' = Inr c \<longrightarrow>
      (\<exists>df'. filtre_mode v df = Inr df' \<and> columns df' = columns df \<and>
         rows_of df' =
           (if v = ''Tous'' then rows_of df
            else filter (\<lambda>r. cell_of r ''mode'' = Some (StrV v)) (rows_of df)))) \<and>
   (\<forall>c. getitem df ''thematique'' = Inr c \<longrightarrow>
      (\<exists>df'. filtre_thematique v df = Inr df' \<and> columns df' = columns df \<and>
         rows_of df' =
           (if v = ''Toutes'' then rows_of df
            else filter (\<lambda>r. cell_of r ''thematique'' = Some (StrV v)) (rows_of df))))"
  unfolding filtre_mode_def filtre_thematique_def
  using filtre_texte_rows by blast

theorem filtre_valeur_exacte_witness:
  "getitem ex_modes ''mode'' = Inr (Obj [Some ''Bus'', None, Some ''Metro'', Some ''Bus'']) \<and>
   getitem ex_modes ''thematique'' = Inr (Obj [Some ''R'', Some ''R'', None, Some ''P'']) \<and>
   (\<exists>df'. filtre_mode ''Bus'' ex_modes = Inr df' \<and>
      rows_of df' =
        [[(''mode'', StrV ''Bus''), (''thematique'', StrV ''R''), (''valeur_reelle'', FloatV 1)],
         [(''mode'', StrV ''Bus''), (''thematique'', StrV ''P''), (''valeur_reelle'', FloatV 4)]]) \<and>
   (\<exists>df'. filtre_thematique ''Toutes'' ex_modes = Inr df' \<and> rows_of df' = rows_of ex_modes)"
proof -
  have g1: "getitem ex_modes ''mode'' = Inr (Obj [Some ''Bus'', None, Some ''Metro'', Some ''Bus''])"
    by code_simp
  have g2: "getitem ex_modes ''thematique'' = Inr (Obj [Some ''R'', Some ''R'', None, Some ''P''])"
    by code_simp
  have e: "filter (\<lambda>r. cell_of r ''mode'' = Some (StrV ''Bus'')) (rows_of ex_modes) =
        [[(''mode'', StrV ''Bus''), (''thematique'', StrV ''R''), (''valeur_reelle'', FloatV 1)],
         [(''mode'', StrV ''Bus''), (''thematique'', StrV ''P''), (''valeur_reelle'', FloatV 4)]]"
    by code_simp
  have n: "''Bus'' \<noteq> ''Tous''" by simp
  from filtre_valeur_exacte[of ex_modes "''Bus''"] g1 n
  have "\<exists>df'. filtre_mode ''Bus'' ex_modes = Inr df' \<and>
      rows_of df' = filter (\<lambda>r. cell_of r ''mode'' = Some (StrV ''Bus'')) (rows_of ex_modes)"
    by auto
  moreover from filtre_valeur_exacte[of ex_modes "''Toutes''"] g2
  have "\<exists>df'. filtre_thematique ''Toutes'' ex_modes = Inr df' \<and> rows_of df' = rows_of ex_modes"
    by auto
  ultimately show ?thesis using g1 g2 unfolding e by blast
qed

section \<open>Rows without a grouping key\<close>

text \<open>
  C10. In the view of the lines (lines 211-213) and in the view of the thematiques
  (line 233), no group has a missing key, and the rows whose key is missing count in no
  mean: the view of the table is the view of the table without these rows, and on a
  table whose columns have one length the mean of a group is the mean of the measured
  values of the rows that have the key of the group.
\<close>

theorem cle_manquante_hors_groupes:
  "(\<forall>kc vc vs. getitem df ''ligne'' = Inr kc \<and> getitem df ''valeur_reelle'' = Inr vc \<and>
       valeurs vc = Inr vs \<longrightarrow>
       (\<exists>rows. top_flop df = Inr rows \<and> NaN \<notin> fst ` set rows \<and>
          top_flop (select_rows (notna kc) df) = Inr rows \<and>
          (wf_table df \<longrightarrow>
             (\<forall>km \<in> set rows.
                snd km = mean (map valeur_ligne
                                 (filter (\<lambda>r. cell_of r ''ligne'' = Some (fst km)) (rows_of df))))))) \<and>
   (\<forall>kc vc vs. getitem df ''thematique'' = Inr kc \<and> getitem df ''valeur_reelle'' = Inr vc \<and>
       valeurs vc = Inr vs \<longrightarrow>
       (\<exists>rows. par_thematique df = Inr rows \<and> NaN \<notin> fst ` set rows \<and>
          par_thematique (select_rows (notna kc) df) = Inr rows \<and>
          (wf_table df \<longrightarrow>
             (\<forall>km \<in> set rows.
                snd km = mean (map valeur_ligne
                                 (filter (\<lambda>r. cell_of r ''thematique'' = Some (fst km)) (rows_of df)))))))"
proof (intro conjI allI impI)
  fix kc vc vs
  assume a: "getitem df ''ligne'' = Inr kc \<and> getitem df ''valeur_reelle'' = Inr vc \<and> valeurs vc = Inr vs"
  then have k: "getitem df ''ligne'' = Inr kc" and v: "getitem df ''valeur_reelle'' = Inr vc"
    and vs: "valeurs vc = Inr vs" by simp_all
  note p = moyenne_par_props[OF k v vs]
  let ?g = "groupby_mean (cells kc) vs"
  let ?rows = "take 15 (sort_values ?g)"
  have sub: "set ?rows \<subseteq> set ?g"
    using set_take_subset[of 15 "sort_values ?g"] sort_values_props(2)[of ?g] by simp
  have "top_flop df = Inr ?rows" by (simp add: top_flop_def p(1))
  moreover have "NaN \<notin> fst ` set ?rows" using sub p(2) by blast
  moreover have "top_flop (select_rows (notna kc) df) = Inr ?rows" by (simp add: top_flop_def p(3))
  moreover have "wf_table df \<longrightarrow>
             (\<forall>km \<in> set ?rows.
                snd km = mean (map valeur_ligne
                                 (filter (\<lambda>r. cell_of r ''ligne'' = Some (fst km)) (rows_of df))))"
    using sub p(4) by blast
  ultimately show "\<exists>rows. top_flop df = Inr rows \<and> NaN \<notin> fst ` set rows \<and>
          top_flop (select_rows (notna kc) df) = Inr rows \<and>
          (wf_table df \<longrightarrow>
             (\<forall>km \<in> set rows.
                snd km = mean (map valeur_ligne
                                 (filter (\<lambda>r. cell_of r ''ligne'' = Some (fst km)) (rows_of df)))))"
    by blast
next
  fix kc vc vs
  assume a: "getitem df ''thematique'' = Inr kc \<and> getitem df ''valeur_reelle'' = Inr vc \<and> valeurs vc = Inr vs"
  then have k: "getitem df ''thematique'' = Inr kc" and v: "getitem df ''valeur_reelle'' = Inr vc"
    and vs: "valeurs vc = Inr vs" by simp_all
  note p = moyenne_par_props[OF k v vs]
  let ?g = "groupby_mean (cells kc) vs"
  let ?rows = "sort_values ?g"
  have sub: "set ?rows = set ?g" by (rule sort_values_props(2))
  have "par_thematique df = Inr ?rows" by (simp add: par_thematique_def p(1))
  moreover have "NaN \<notin> fst ` set ?rows" using sub p(2) by simp
  moreover have "par_thematique (select_rows (notna kc) df) = Inr ?rows"
    by (simp add: par_thematique_def p(3))
  moreover have "wf_table df \<longrightarrow>
             (\<forall>km \<in> set ?rows.
                snd km = mean (map valeur_ligne
                                 (filter (\<lambda>r. cell_of r ''thematique'' = Some (fst km)) (rows_of df))))"
    using sub p(4) by blast
  ultimately show "\<exists>rows. par_thematique df = Inr rows \<and> NaN \<notin> fst ` set rows \<and>
          par_thematique (select_rows (notna kc) df) = Inr rows \<and>
          (wf_table df \<longrightarrow>
             (\<forall>km \<in> set rows.
                snd km = mean (map valeur_ligne
                                 (filter (\<lambda>r. cell_of r ''thematique'' = Some (fst km)) (rows_of df)))))"
    by blast
qed

theorem cle_manquante_hors_groupes_witness:
  "getitem ex_lignes ''ligne'' = Inr (Obj [Some ''B'', Some ''A'', None, Some ''B'', Some ''C'']) \<and>
   getitem ex_lignes ''thematique'' = Inr (Obj [Some ''R'', None, Some ''R'', Some ''P'', Some ''P'']) \<and>
   getitem ex_lignes ''valeur_reelle'' = Inr (F64 [Some 90, Some 80, Some 10, Some 96, Some 85]) \<and>
   valeurs (F64 [Some 90, Some 80, Some 10, Some 96, Some 85]) =
     Inr [Some 90, Some 80, Some 10, Some 96, Some 85] \<and>
   top_flop ex_lignes = Inr [(StrV ''A'', Some 80), (StrV ''C'', Some 85), (StrV ''B'', Some 93)] \<and>
   NaN \<notin> fst ` set [(StrV ''A'', Some 80), (StrV ''C'', Some 85), (StrV ''B'', Some (93 :: rat))] \<and>
   top_flop (select_rows (notna (Obj [Some ''B'', Some ''A'', None, Some ''B'', Some ''C''])) ex_lignes) =
     Inr [(StrV ''A'', Some 80), (StrV ''C'', Some 85), (StrV ''B'', Some 93)] \<and>
   par_thematique ex_lignes = Inr [(StrV ''R'', Some 50), (StrV ''P'', Some (181 / 2))] \<and>
   NaN \<notin> fst ` set [(StrV ''R'', Some 50), (StrV ''P'', Some (181 / 2 :: rat))] \<and>
   par_thematique (select_rows (notna (Obj [Some ''R'', None, Some ''R'', Some ''P'', Some ''P''])) ex_lignes) =
     Inr [(StrV ''R'', Some 50), (StrV ''P'', Some (181 / 2))]"
proof -
  have k1: "getitem ex_lignes ''ligne'' = Inr (Obj [Some ''B'', Some ''A'', None, Some ''B'', Some ''C''])"
    by code_simp
  have k2: "getitem ex_lignes ''thematique'' = Inr (Obj [Some ''R'', None, Some ''R'', Some ''P'', Some ''P''])"
    by code_simp
  have v: "getitem ex_lignes ''valeur_reelle'' = Inr (F64 [Some 90, Some 80, Some 10, Some 96, Some 85])"
    by code_simp
  have vs: "valeurs (F64 [Some 90, Some 80, Some 10, Some 96, Some 85]) =
     Inr [Some 90, Some 80, Some 10, Some 96, Some 85]" by simp
  have t: "top_flop ex_lignes = Inr [(StrV ''A'', Some 80), (StrV ''C'', Some 85), (StrV ''B'', Some 93)]"
    by code_simp
  have p: "par_thematique ex_lignes = Inr [(StrV ''R'', Some 50), (StrV ''P'', Some (181 / 2))]"
    by code_simp
  from cle_manquante_hors_groupes[of ex_lignes] k1 v vs
  obtain rows where "top_flop ex_lignes = Inr rows" "NaN \<notin> fst ` set rows"
    "top_flop (select_rows (notna (Obj [Some ''B'', Some ''A'', None, Some ''B'', Some ''C''])) ex_lignes) = Inr rows"
    by blast
  with t have a: "NaN \<notin> fst ` set [(StrV ''A'', Some 80), (StrV ''C'', Some 85), (StrV ''B'', Some (93 :: rat))]"
    "top_flop (select_rows (notna (Obj [Some ''B'', Some ''A'', None, Some ''B'', Some ''C''])) ex_lignes) =
       Inr [(StrV ''A'', Some 80), (StrV ''C'', Some 85), (StrV ''B'', Some 93)]"
    by simp_all
  from cle_manquante_hors_groupes[of ex_lignes] k2 v vs
  obtain rows' where "par_thematique ex_lignes = Inr rows'" "NaN \<notin> fst ` set rows'"
    "par_thematique (select_rows (notna (Obj [Some ''R'', None, Some ''R'', Some ''P'', Some ''P''])) ex_lignes) = Inr rows'"
    by blast
  with p have b: "NaN \<notin> fst ` set [(StrV ''R'', Some 50), (StrV ''P'', Some (181 / 2 :: rat))]"
    "par_thematique (select_rows (notna (Obj [Some ''R'', None, Some ''R'', Some ''P'', Some ''P''])) ex_lignes) =
       Inr [(StrV ''R'', Some 50), (StrV ''P'', Some (181 / 2))]"
    by simp_all
  from k1 k2 v vs t p a b show ?thesis by blast
qed

end
